theory Spec2Isabelle
  imports Complex_Main
begin

section \<open>Python values, errors and helpers\<close>

text \<open>
  The development embeds \<^verbatim>\<open>train_dense_encoder.py\<close>. Exceptions are values of
  \<open>error\<close>; a call that may raise returns \<open>error + 'a\<close> with \<open>Inl\<close> for the exception.
  Python floats are read as real numbers (no rounding, no NaN); Python ints are \<open>int\<close>.
\<close>

datatype error =
    ValueError string
  | KeyError string
  | ZeroDivisionError
  | AssertionError
  | TypeError
  | IndexError
  | RuntimeError string
  | AttributeError string

definition bind :: "error + 'a \<Rightarrow> ('a \<Rightarrow> error + 'b) \<Rightarrow> error + 'b" where
  "bind m f = (case m of Inl e \<Rightarrow> Inl e | Inr x \<Rightarrow> f x)"

text \<open>\<^verbatim>\<open>str(n)\<close> for a Python int.\<close>

fun str_nat :: "nat \<Rightarrow> string" where
  "str_nat n =
     (if n < 10 then [''0123456789'' ! n]
      else str_nat (n div 10) @ [''0123456789'' ! (n mod 10)])"

declare str_nat.simps [simp del]

definition str_int :: "int \<Rightarrow> string" where
  "str_int i = (if i < 0 then CHR ''-'' # str_nat (nat (- i)) else str_nat (nat i))"

text \<open>\<^verbatim>\<open>os.path.join(a, b)\<close> on POSIX, for two components.\<close>

definition os_path_join :: "string \<Rightarrow> string \<Rightarrow> string" where
  "os_path_join a b =
     (if b \<noteq> [] \<and> hd b = CHR ''/'' then b
      else if a = [] \<or> last a = CHR ''/'' then a @ b
      else a @ ''/'' @ b)"

text \<open>
  \<^verbatim>\<open>x or d\<close> where \<open>x\<close> is \<^verbatim>\<open>None\<close> or a number: Python tests the truth value of
  \<open>x\<close>, and both \<^verbatim>\<open>None\<close> and zero are false.
\<close>

definition py_or :: "real option \<Rightarrow> real \<Rightarrow> real" where
  "py_or x d = (case x of None \<Rightarrow> d | Some v \<Rightarrow> if v = 0 then d else v)"

text \<open>\<^verbatim>\<open>math.ceil(a / b)\<close> for Python ints (true division raises on a zero divisor).\<close>

definition ceil_div :: "int \<Rightarrow> int \<Rightarrow> error + int" where
  "ceil_div a b = (if b = 0 then Inl ZeroDivisionError else Inr (- ((- a) div b)))"

text \<open>\<^verbatim>\<open>a % b\<close> for Python ints: floored, and raising on a zero divisor.\<close>

definition py_mod :: "int \<Rightarrow> int \<Rightarrow> error + int" where
  "py_mod a b = (if b = 0 then Inl ZeroDivisionError else Inr (a mod b))"

section \<open>Configuration and trainer state\<close>

record train_cfg =
  higher_is_better :: bool
  save_best_only :: bool
  save_separate_models :: bool
  eval_during_epoch :: bool
  gradient_accumulation_steps :: int
  eval_per_epoch :: int
  num_train_epochs :: int
  warmup_steps :: int
  log_batch_step :: int
  train_rolling_loss_step :: int

record cfg =
  train :: train_cfg
  local_rank :: int
  distributed_world_size :: "int option"
  val_av_rank_start_epoch :: int
  dev_datasets :: "string list"
  train_datasets :: "string list"
  model_file :: "string option"
  customer_chunks :: "string option"
  output_dir :: string
  checkpoint_file_name :: string
  ignore_checkpoint_offset :: bool
  ignore_checkpoint_optimizer :: bool

text \<open>
  Side effects that the claims speak about are recorded in a chronological event log kept
  in the trainer state: files written, validations run, the scheduler built, warnings.
  A stateful routine maps a trainer to an outcome (normal result or exception) and the
  trainer it leaves behind, so the effects made before an exception are kept.
\<close>

datatype event =
    Warning string
  | Validation int int bool
  | Saved_encoder string
  | Saved_tokenizer string
  | Saved_checkpoint string int int
  | Scheduler_built int int int
  | Epoch_started int
  | Optimizer_step
  | Trainer_constructed
  | Standalone_validation

type_synonym state_dict = "(string \<times> int) list"

record trainer =
  start_epoch :: int
  start_batch :: int
  scheduler_state :: "state_dict option"
  best_validation_result :: "real option"
  best_cp_name :: "string option"
  model_weights :: "real list"
  optimizer_state :: state_dict
  events :: "event list"

definition emit :: "event \<Rightarrow> trainer \<Rightarrow> trainer" where
  "emit e tr = tr\<lparr>events := events tr @ [e]\<rparr>"

text \<open>The distributed factor of \<^verbatim>\<open>__init__\<close>: \<^verbatim>\<open>cfg.distributed_world_size or 1\<close>.\<close>

definition distributed_factor :: "cfg \<Rightarrow> int" where
  "distributed_factor c =
     (case distributed_world_size c of None \<Rightarrow> 1 | Some n \<Rightarrow> if n = 0 then 1 else n)"

section \<open>Loading a checkpoint\<close>

text \<open>\<^verbatim>\<open>CheckpointState\<close>; a state dictionary that is \<^verbatim>\<open>None\<close> or empty is false.\<close>

record checkpoint_state =
  model_dict :: "real list"
  optimizer_dict :: "state_dict option"
  scheduler_dict :: "state_dict option"
  cp_offset :: int
  cp_epoch :: int

definition dict_truth :: "state_dict option \<Rightarrow> bool" where
  "dict_truth d = (case d of None \<Rightarrow> False | Some kvs \<Rightarrow> kvs \<noteq> [])"

definition load_saved_state :: "cfg \<Rightarrow> checkpoint_state \<Rightarrow> trainer \<Rightarrow> trainer" where
  "load_saved_state c saved_state tr =
     (let epoch0 = cp_epoch saved_state;
          offset = cp_offset saved_state;
          epoch = (if offset = 0 then epoch0 + 1 else epoch0);
          tr1 = (if ignore_checkpoint_offset c
                 then tr\<lparr>start_epoch := 0, start_batch := 0\<rparr>
                 else tr\<lparr>start_epoch := epoch, start_batch := 0\<rparr>);
          tr2 = tr1\<lparr>model_weights := model_dict saved_state\<rparr>
      in if \<not> ignore_checkpoint_optimizer c then
           (let tr3 = (if dict_truth (optimizer_dict saved_state)
                       then tr2\<lparr>optimizer_state := the (optimizer_dict saved_state)\<rparr>
                       else tr2)
            in if dict_truth (scheduler_dict saved_state)
               then tr3\<lparr>scheduler_state := scheduler_dict saved_state\<rparr>
               else tr3)
         else tr2)"

text \<open>
  \<^verbatim>\<open>BiEncoderTrainer.__init__\<close>: the fields are initialised and, when a checkpoint
  was found and read (\<open>saved_state\<close>), \<^verbatim>\<open>_load_saved_state\<close> runs. The freshly
  initialised weights and optimizer state are inputs.
\<close>

definition init_trainer ::
  "cfg \<Rightarrow> checkpoint_state option \<Rightarrow> real list \<Rightarrow> state_dict \<Rightarrow> trainer" where
  "init_trainer c saved_state w opt =
     (let tr = \<lparr>start_epoch = 0, start_batch = 0, scheduler_state = None,
                best_validation_result = None, best_cp_name = None,
                model_weights = w, optimizer_state = opt, events = [Trainer_constructed]\<rparr>
      in case saved_state of None \<Rightarrow> tr | Some s \<Rightarrow> load_saved_state c s tr)"

section \<open>Checkpoint writing and the best-checkpoint tracker\<close>

text \<open>
  \<^verbatim>\<open>_save_checkpoint\<close>: optionally the two encoders, then the tokenizer, then the
  checkpoint file, whose name is \<^verbatim>\<open><output_dir>/<name>.<epoch>\<close> or
  \<^verbatim>\<open><output_dir>/<name>_best.cp\<close>. The name is returned.
\<close>

definition save_checkpoint ::
  "cfg \<Rightarrow> int \<Rightarrow> int \<Rightarrow> bool \<Rightarrow> bool \<Rightarrow> trainer \<Rightarrow> string \<times> trainer" where
  "save_checkpoint c epoch offset save_separate best_model_found tr =
     (let tr1 =
            (if save_separate then
               emit (Saved_encoder
                       (os_path_join (output_dir c) (''dpr_passage_encoder_epoch_'' @ str_int epoch)))
                 (emit (Saved_encoder
                          (os_path_join (output_dir c) (''dpr_question_encoder_epoch_'' @ str_int epoch)))
                    tr)
             else tr);
          cp = (if \<not> best_model_found
                then os_path_join (output_dir c) (checkpoint_file_name c @ ''.'' @ str_int epoch)
                else os_path_join (output_dir c) (checkpoint_file_name c @ ''_best.cp''));
          tr2 = emit (Saved_tokenizer (output_dir c)) tr1
      in (cp, emit (Saved_checkpoint cp offset epoch) tr2))"

text \<open>
  The test of lines 289-293 of \<^verbatim>\<open>validate_and_save\<close>:
  \<^verbatim>\<open>(not hib and v < (best or v + 1)) or (hib and v > (best or v - 1))\<close>.
\<close>

definition best_model_found_test :: "bool \<Rightarrow> real option \<Rightarrow> real \<Rightarrow> bool" where
  "best_model_found_test hib best v =
     ((\<not> hib \<and> v < py_or best (v + 1)) \<or> (hib \<and> v > py_or best (v - 1)))"

text \<open>
  Lines 285-308: the block guarded by \<^verbatim>\<open>save_cp and save\<close>. The truth value of
  \<^verbatim>\<open>cp_name\<close> is that of a string: it is true when the string is not empty.
\<close>

definition save_step :: "cfg \<Rightarrow> int \<Rightarrow> int \<Rightarrow> bool \<Rightarrow> real \<Rightarrow> trainer \<Rightarrow> trainer" where
  "save_step c epoch iteration save validation_loss tr =
     (let save_cp = (local_rank c = -1 \<or> local_rank c = 0) in
      if save_cp \<and> save then
        (let best_model_found =
               best_model_found_test (higher_is_better (train c))
                 (best_validation_result tr) validation_loss;
             (cp_name, tr1) =
               (if \<not> save_best_only (train c) \<or> (save_best_only (train c) \<and> best_model_found)
                then (case save_checkpoint c epoch iteration (save_separate_models (train c))
                             (save_best_only (train c) \<and> best_model_found) tr
                      of (cp, t) \<Rightarrow> (Some cp, t))
                else (None, tr))
         in if best_model_found \<and> (case cp_name of None \<Rightarrow> False | Some n \<Rightarrow> n \<noteq> [])
            then tr1\<lparr>best_validation_result := Some validation_loss, best_cp_name := cp_name\<rparr>
            else tr1)
      else tr)"

section \<open>Validation and best-model selection\<close>

text \<open>
  The three validation routines called by \<^verbatim>\<open>validate_and_save\<close> run the encoders;
  their outcomes at one validation call are inputs of the model: the dictionary returned
  by \<^verbatim>\<open>validate_nll\<close>, the dictionary returned by \<^verbatim>\<open>validate_ask_ai_metrics\<close> and
  the number returned by \<^verbatim>\<open>validate_average_rank\<close>, each of which may be an exception.
\<close>

type_synonym metrics = "string \<rightharpoonup> real"

type_synonym passage = "int \<times> string"

record val_outcome =
  nll_result :: "error + metrics"
  ask_ai_result :: "error + metrics"
  average_rank_result :: "error + real"

definition lookup :: "metrics \<Rightarrow> string \<Rightarrow> error + real" where
  "lookup m k = (case m k of None \<Rightarrow> Inl (KeyError k) | Some v \<Rightarrow> Inr v)"

text \<open>
  Lines 265-283: the metrics dictionary and the scalar \<^verbatim>\<open>validation_loss\<close>.
  \<^verbatim>\<open>all_passages\<close> is the list of passages of the external corpus; only its truth
  value (non-empty) is used here.
\<close>

definition compute_validation_loss ::
  "cfg \<Rightarrow> int \<Rightarrow> passage list \<Rightarrow> val_outcome \<Rightarrow> error + (metrics \<times> real)" where
  "compute_validation_loss c epoch all_passages out =
     (if dev_datasets c = [] then Inr (Map.empty, 0)
      else
        bind (nll_result out) (\<lambda>metrics0.
        bind (if all_passages \<noteq> []
              then bind (ask_ai_result out) (\<lambda>ir.
                   bind (lookup ir ''p@30'') (\<lambda>p. Inr (metrics0 ++ ir, Some p)))
              else Inr (metrics0, None)) (\<lambda>(metrics1, p_at_30).
        bind (average_rank_result out) (\<lambda>average_rank_loss.
        (let metrics2 = metrics1(''Dev Average Rank'' \<mapsto> average_rank_loss) in
         if epoch \<ge> val_av_rank_start_epoch c then
           (case p_at_30 of
              Some p \<Rightarrow> Inr (metrics2, p)
            | None \<Rightarrow> Inr (metrics2, average_rank_loss))
         else bind (lookup metrics2 ''Dev NLL loss'') (\<lambda>l. Inr (metrics2, l)))))))"

definition validate_and_save ::
  "cfg \<Rightarrow> int \<Rightarrow> int \<Rightarrow> passage list \<Rightarrow> bool \<Rightarrow> val_outcome \<Rightarrow> trainer
     \<Rightarrow> (error + metrics) \<times> trainer" where
  "validate_and_save c epoch iteration all_passages save out tr =
     (let tr0 = emit (Validation epoch iteration save) tr;
          tr1 = (if epoch = val_av_rank_start_epoch c
                 then tr0\<lparr>best_validation_result := None\<rparr> else tr0)
      in case compute_validation_loss c epoch all_passages out of
           Inl e \<Rightarrow> (Inl e, tr1)
         | Inr (metrics, validation_loss) \<Rightarrow>
             (Inr metrics, save_step c epoch iteration save validation_loss tr1))"

section \<open>The epoch loop\<close>

text \<open>
  One batch of the training iterator, as \<^verbatim>\<open>_train_epoch\<close> sees it: the value of
  \<^verbatim>\<open>train_data_iterator.get_iteration()\<close> while the batch is processed, and the loss
  and the number of correct predictions that the forward pass returns for it.
\<close>

record step =
  data_iteration :: int
  loss_item :: real
  correct_cnt :: int

record loop_acc =
  rolling_train_loss :: real
  epoch_loss :: real
  epoch_correct_predictions :: int
  last_data_iteration :: int

text \<open>
  The body of the \<^verbatim>\<open>for\<close> loop of \<^verbatim>\<open>_train_epoch\<close>, with \<open>i\<close> the index of
  \<^verbatim>\<open>enumerate\<close>. \<open>val epoch iteration\<close> is the outcome of the validation routines when
  they are called at that point of the run. In the test
  \<^verbatim>\<open>data_iteration % eval_step == 0 and cfg.train.eval_during_epoch\<close> the remainder is
  computed first.
\<close>

fun train_loop ::
  "cfg \<Rightarrow> int \<Rightarrow> int \<Rightarrow> passage list \<Rightarrow> (int \<Rightarrow> int \<Rightarrow> val_outcome) \<Rightarrow> nat \<Rightarrow> step list
     \<Rightarrow> loop_acc \<Rightarrow> trainer \<Rightarrow> (error + loop_acc) \<times> trainer" where
  "train_loop c epoch eval_step all_passages val i [] acc tr = (Inr acc, tr)"
| "train_loop c epoch eval_step all_passages val i (s # ss) acc tr =
     (let acc1 = acc\<lparr>last_data_iteration := data_iteration s,
                     epoch_correct_predictions := epoch_correct_predictions acc + correct_cnt s,
                     epoch_loss := epoch_loss acc + loss_item s,
                     rolling_train_loss := rolling_train_loss acc + loss_item s\<rparr>
      in case py_mod (int i + 1) (gradient_accumulation_steps (train c)) of
           Inl e \<Rightarrow> (Inl e, tr)
         | Inr m1 \<Rightarrow>
        (let tr1 = (if m1 = 0 then emit Optimizer_step tr else tr)
         in case py_mod (int i) (log_batch_step (train c)) of
              Inl e \<Rightarrow> (Inl e, tr1)
            | Inr m2 \<Rightarrow>
           (case py_mod (int i + 1) (train_rolling_loss_step (train c)) of
              Inl e \<Rightarrow> (Inl e, tr1)
            | Inr m3 \<Rightarrow>
              (let acc2 = (if m3 = 0 then acc1\<lparr>rolling_train_loss := 0\<rparr> else acc1)
               in case py_mod (data_iteration s) eval_step of
                    Inl e \<Rightarrow> (Inl e, tr1)
                  | Inr m4 \<Rightarrow>
                    if m4 = 0 \<and> eval_during_epoch (train c) then
                      (case validate_and_save c epoch (data_iteration s) all_passages False
                              (val epoch (data_iteration s)) tr1 of
                         (Inl e, tr2) \<Rightarrow> (Inl e, tr2)
                       | (Inr _, tr2) \<Rightarrow>
                           train_loop c epoch eval_step all_passages val (Suc i) ss acc2 tr2)
                    else train_loop c epoch eval_step all_passages val (Suc i) ss acc2 tr1))))"

text \<open>
  \<^verbatim>\<open>_train_epoch\<close>: the loop, the validation at the end of the epoch with
  \<^verbatim>\<open>save=True\<close>, and the epoch metrics. \<open>epoch_batches\<close> is
  \<^verbatim>\<open>train_data_iterator.max_iterations\<close>.
\<close>

definition train_epoch ::
  "cfg \<Rightarrow> int \<Rightarrow> int \<Rightarrow> int \<Rightarrow> step list \<Rightarrow> passage list \<Rightarrow> (int \<Rightarrow> int \<Rightarrow> val_outcome)
     \<Rightarrow> trainer \<Rightarrow> (error + metrics) \<times> trainer" where
  "train_epoch c epoch eval_step epoch_batches batches all_passages val tr =
     (case train_loop c epoch eval_step all_passages val 0 batches
             \<lparr>rolling_train_loss = 0, epoch_loss = 0, epoch_correct_predictions = 0,
              last_data_iteration = 0\<rparr> tr of
        (Inl e, tr1) \<Rightarrow> (Inl e, tr1)
      | (Inr acc, tr1) \<Rightarrow>
          (case validate_and_save c epoch (last_data_iteration acc) all_passages True
                  (val epoch (last_data_iteration acc)) tr1 of
             (Inl e, tr2) \<Rightarrow> (Inl e, tr2)
           | (Inr val_metrics, tr2) \<Rightarrow>
               (let train_loss = (if epoch_batches > 0
                                  then epoch_loss acc / real_of_int epoch_batches else 0)
                in (Inr (val_metrics(''Iteration'' \<mapsto> real_of_int (last_data_iteration acc),
                                     ''Epoch'' \<mapsto> real_of_int epoch,
                                     ''Train loss'' \<mapsto> train_loss)), tr2))))"

section \<open>The training run\<close>

text \<open>
  What \<^verbatim>\<open>run_train\<close> obtains from its collaborators: the files found for
  \<^verbatim>\<open>cfg.customer_chunks\<close>, the passages read from them, the number of batches of each
  training source, the batches that the iterator yields in each epoch, and the outcomes of
  the validation routines.
\<close>

record train_env =
  chunk_files :: "string list"
  chunk_passages :: "passage list"
  source_iterations :: "int list"
  batches_of_epoch :: "int \<Rightarrow> step list"
  validation :: "int \<Rightarrow> int \<Rightarrow> val_outcome"

text \<open>
  Modelled from the spec: \<^verbatim>\<open>MultiSetDataIterator.get_max_iterations\<close> (module
  \<^verbatim>\<open>dpr.utils.data_utils\<close>) is not part of the sources at hand. The specification gives
  \<open>max_iterations\<close> as the sum of the per-source batch counts.
\<close>

definition get_max_iterations :: "int list \<Rightarrow> int" where
  "get_max_iterations its = sum_list its"

text \<open>The \<^verbatim>\<open>for epoch in range(self.start_epoch, num_train_epochs)\<close> loop.\<close>

fun run_epochs ::
  "cfg \<Rightarrow> int \<Rightarrow> int \<Rightarrow> passage list \<Rightarrow> train_env \<Rightarrow> int list \<Rightarrow> trainer
     \<Rightarrow> (error + unit) \<times> trainer" where
  "run_epochs c eval_step max_its all_passages env [] tr = (Inr (), tr)"
| "run_epochs c eval_step max_its all_passages env (epoch # es) tr =
     (case train_epoch c epoch eval_step max_its (batches_of_epoch env epoch) all_passages
             (validation env) (emit (Epoch_started epoch) tr) of
        (Inl e, tr1) \<Rightarrow> (Inl e, tr1)
      | (Inr _, tr1) \<Rightarrow> run_epochs c eval_step max_its all_passages env es tr1)"

text \<open>The truth value of a configuration string that may be \<^verbatim>\<open>None\<close>.\<close>

definition str_truth :: "string option \<Rightarrow> bool" where
  "str_truth s = (case s of None \<Rightarrow> False | Some x \<Rightarrow> x \<noteq> [])"

text \<open>
  Lines 217-232: the step shift of the scheduler, \<^verbatim>\<open>int(self.scheduler_state["last_epoch"])\<close>
  when a scheduler state was restored, and the default 0 otherwise.
\<close>

definition scheduler_shift :: "trainer \<Rightarrow> error + int" where
  "scheduler_shift tr =
     (if dict_truth (scheduler_state tr)
      then (case map_of (the (scheduler_state tr)) ''last_epoch'' of
              None \<Rightarrow> Inl (KeyError ''last_epoch'')
            | Some shift \<Rightarrow> Inr shift)
      else Inr 0)"

definition run_train :: "cfg \<Rightarrow> train_env \<Rightarrow> trainer \<Rightarrow> (error + unit) \<times> trainer" where
  "run_train c env tr =
     (if str_truth (customer_chunks c) \<and> chunk_files env = [] then
        (Inl (ValueError (''File descriptor '' @ the (customer_chunks c) @ '' is not configured.'')),
         tr)
      else
        (let all_passages = (if str_truth (customer_chunks c) then chunk_passages env else []);
             max_iterations = get_max_iterations (source_iterations env)
         in if max_iterations = 0 then
              (Inr (), emit (Warning ''No data found for training.'') tr)
            else if gradient_accumulation_steps (train c) = 0 then (Inl ZeroDivisionError, tr)
            else
              (let updates_per_epoch = max_iterations div gradient_accumulation_steps (train c);
                   total_updates = updates_per_epoch * num_train_epochs (train c)
               in case scheduler_shift tr of
                    Inl e \<Rightarrow> (Inl e, tr)
                  | Inr shift \<Rightarrow>
                     (let tr1 = emit (Scheduler_built (warmup_steps (train c)) total_updates shift) tr
                      in case ceil_div updates_per_epoch (eval_per_epoch (train c)) of
                           Inl e \<Rightarrow> (Inl e, tr1)
                         | Inr eval_step \<Rightarrow>
                             run_epochs c eval_step max_iterations all_passages env
                               [start_epoch tr1 .. num_train_epochs (train c) - 1] tr1))))"

section \<open>Flattening the configuration\<close>

text \<open>
  A configuration as \<^verbatim>\<open>flatten_dict\<close> sees it: a mapping from names to values, where a
  value is either a nested mapping or a plain value, kept as a string.
\<close>

datatype conf = Leaf string | Mapping "(string \<times> conf) list"

text \<open>
  A Python dictionary as the list of its items in insertion order: storing under a key
  that is present replaces the value and keeps the place. \<^verbatim>\<open>dict(items)\<close> stores the
  pairs one after the other.
\<close>

fun dict_set :: "'k \<Rightarrow> 'v \<Rightarrow> ('k \<times> 'v) list \<Rightarrow> ('k \<times> 'v) list" where
  "dict_set k v [] = [(k, v)]"
| "dict_set k v ((k', v') # kvs) =
     (if k = k' then (k, v) # kvs else (k', v') # dict_set k v kvs)"

definition dict_of :: "('k \<times> 'v) list \<Rightarrow> ('k \<times> 'v) list" where
  "dict_of items = foldl (\<lambda>d (k, v). dict_set k v d) [] items"

text \<open>
  \<^verbatim>\<open>flatten_dict\<close> (lines 66-74): the loop over \<^verbatim>\<open>d.items()\<close> with the list
  \<open>items\<close> built so far, and the function itself with its default arguments. The test
  \<^verbatim>\<open>isinstance(v, collections.MutableMapping)\<close> reads the attribute
  \<^verbatim>\<open>MutableMapping\<close> of the module \<^verbatim>\<open>collections\<close> at every item; \<open>mm\<close> tells
  whether the running interpreter has it (the alias was removed in Python 3.10), and
  reading it raises when it has not. The text of the message is abridged.
\<close>

function flatten_loop ::
  "bool \<Rightarrow> string \<Rightarrow> (string \<times> conf) list \<Rightarrow> string \<Rightarrow> (string \<times> string) list
     \<Rightarrow> error + (string \<times> string) list" where
  "flatten_loop mm sep [] parent_key items = Inr (dict_of items)"
| "flatten_loop mm sep ((k, v) # d) parent_key items =
     (let new_key = (if parent_key \<noteq> [] then parent_key @ sep @ k else k) in
      if \<not> mm
      then Inl (AttributeError ''module collections has no attribute MutableMapping'')
      else case v of
             Mapping d' \<Rightarrow>
               (case flatten_loop mm sep d' new_key [] of
                  Inl e \<Rightarrow> Inl e
                | Inr sub \<Rightarrow> flatten_loop mm sep d parent_key (items @ sub))
           | Leaf x \<Rightarrow> flatten_loop mm sep d parent_key (items @ [(new_key, x)]))"
  by pat_completeness auto
termination
  by (relation "measure (\<lambda>(mm, sep, d, parent_key, items).
        size_list (size_prod (\<lambda>_. 0) size) d)") auto

definition flatten_dict :: "bool \<Rightarrow> (string \<times> conf) list \<Rightarrow> error + (string \<times> string) list" where
  "flatten_dict mm d = flatten_loop mm ''_'' d [] []"

section \<open>The entry point\<close>

text \<open>
  \<^verbatim>\<open>main\<close>. Before the trainer exists there is no trainer state, so the result is the
  outcome together with the event log of the whole run. The statements before the check
  of \<open>gradient_accumulation_steps\<close> are the login of the experiment tracker, whose
  argument \<^verbatim>\<open>os.environ["WANDB_API_KEY"]\<close> raises when the variable is not set
  (\<open>wandb_key\<close> tells whether it is), and the tracker's initialisation, whose argument
  \<^verbatim>\<open>flatten_dict(cfg)\<close> is evaluated before the call; \<open>cfg_dict\<close> is the
  configuration as the nested mapping that \<^verbatim>\<open>flatten_dict\<close> walks, and
  \<open>mutable_mapping\<close> what \<open>mm\<close> is for \<open>flatten_loop\<close>. The tracker's own calls
  and the reads of configuration fields in the other arguments are taken to return.
  \<open>saved_state\<close>, \<open>w\<close> and \<open>opt\<close> are what the trainer's constructor
  obtains from its collaborators, and \<open>standalone\<close> is the outcome of the two validation
  routines run without training.
\<close>

definition main ::
  "cfg \<Rightarrow> (string \<times> conf) list \<Rightarrow> bool \<Rightarrow> bool \<Rightarrow> checkpoint_state option \<Rightarrow> real list
     \<Rightarrow> state_dict \<Rightarrow> train_env \<Rightarrow> val_outcome \<Rightarrow> (error + unit) \<times> event list" where
  "main c cfg_dict wandb_key mutable_mapping saved_state w opt env standalone =
     (if \<not> wandb_key then (Inl (KeyError ''WANDB_API_KEY''), [])
      else case flatten_dict mutable_mapping cfg_dict of
        Inl e \<Rightarrow> (Inl e, [])
      | Inr config \<Rightarrow>
      if gradient_accumulation_steps (train c) < 1 then
        (Inl (ValueError (''Invalid gradient_accumulation_steps parameter: ''
                           @ str_int (gradient_accumulation_steps (train c))
                           @ '', should be >= 1'')), [])
      else
        (let trainer = init_trainer c saved_state w opt
         in if train_datasets c \<noteq> [] \<and> length (train_datasets c) > 0 then
              (case run_train c env trainer of (r, tr) \<Rightarrow> (r, events tr))
            else if str_truth (model_file c) \<and> dev_datasets c \<noteq> [] then
              (case nll_result standalone of
                 Inl e \<Rightarrow> (Inl e, events trainer)
               | Inr _ \<Rightarrow>
                   (case average_rank_result standalone of
                      Inl e \<Rightarrow> (Inl e, events trainer)
                    | Inr _ \<Rightarrow> (Inr (), events trainer @ [Standalone_validation])))
            else
              (Inr (), events trainer @
                 [Warning ''Neither train_file or (model_file & dev_file) parameters are specified. Nothing to do.''])))"

section \<open>The gather of the distributed mode\<close>

text \<open>
  Modelled from the spec: \<^verbatim>\<open>all_gather_list\<close> (module \<^verbatim>\<open>dpr.utils.dist_utils\<close>) is
  not part of the sources at hand. The specification describes it as a synchronous
  collective that returns to every worker the ordered list of all workers' local data,
  indexed by worker rank, and that fails when the serialized payload exceeds the declared
  maximum size. Seen from one worker: \<open>my_rank\<close> is the worker's rank in the group,
  \<open>others\<close> what the other workers submit, in rank order, and \<open>payload_fits\<close> whether
  the worker's own payload fits the buffer.
\<close>

record 'a dist_env =
  my_rank :: nat
  others :: "'a list"
  payload_fits :: bool

definition all_gather_list :: "'a dist_env \<Rightarrow> 'a \<Rightarrow> error + 'a list" where
  "all_gather_list env x =
     (if payload_fits env
      then Inr (take (my_rank env) (others env) @ x # drop (my_rank env) (others env))
      else Inl (ValueError ''encoded data exceeds max_size''))"

section \<open>Average-rank validation\<close>

text \<open>\<^verbatim>\<open>(indices[i] == idx).nonzero()\<close>: the positions that hold \<open>idx\<close>.\<close>

definition nonzero_eq :: "nat list \<Rightarrow> int \<Rightarrow> nat list" where
  "nonzero_eq inds idx = filter (\<lambda>j. int (inds ! j) = idx) [0..<length inds]"

text \<open>\<^verbatim>\<open>.item()\<close>: the value of a tensor of exactly one element.\<close>

definition item :: "'a list \<Rightarrow> error + 'a" where
  "item xs =
     (case xs of
        [x] \<Rightarrow> Inr x
      | _ \<Rightarrow> Inl (RuntimeError ''only one element tensors can be converted to Python scalars''))"

fun rank_loop :: "nat list list \<Rightarrow> nat \<Rightarrow> int list \<Rightarrow> int \<Rightarrow> error + int" where
  "rank_loop indices i [] rank = Inr rank"
| "rank_loop indices i (idx # idxs) rank =
     (if length indices \<le> i then Inl IndexError
      else bind (item (nonzero_eq (indices ! i) idx))
             (\<lambda>gold_idx. rank_loop indices (Suc i) idxs (rank + int gold_idx)))"

text \<open>The loop over \<^verbatim>\<open>eval_stats\<close>: every slot but that of \<open>cfg.local_rank\<close> is added.\<close>

fun merge_stats :: "int \<Rightarrow> nat \<Rightarrow> (int \<times> int) list \<Rightarrow> int \<times> int \<Rightarrow> int \<times> int" where
  "merge_stats lr i [] acc = acc"
| "merge_stats lr i ((remote_rank, remote_q_num) # stats) (rank, q_num) =
     (if int i \<noteq> lr
      then merge_stats lr (Suc i) stats (rank + remote_rank, q_num + remote_q_num)
      else merge_stats lr (Suc i) stats (rank, q_num))"

text \<open>
  \<^verbatim>\<open>validate_average_rank\<close>. The question vectors, the passage vectors and the index of
  each question's gold passage come from \<^verbatim>\<open>_encode_questions_and_passages\<close>, which runs
  the encoders; the similarity function belongs to the loss module. They are inputs. So is
  \<open>torch_sort\<close>, the indices returned by
  \<^verbatim>\<open>torch.sort(scores, dim=1, descending=True)\<close>: the library sorts every row in
  descending order and leaves the order of equal scores open, so the model takes the
  answer of the library as it comes and fixes no order of its own.
\<close>

definition validate_average_rank ::
  "cfg \<Rightarrow> (int \<times> int) dist_env \<Rightarrow> (real list list \<Rightarrow> real list list \<Rightarrow> real list list)
     \<Rightarrow> (real list list \<Rightarrow> nat list list)
     \<Rightarrow> real list list \<Rightarrow> real list list \<Rightarrow> int list \<Rightarrow> error + real" where
  "validate_average_rank c env sim_score_f torch_sort q_represenations ctx_represenations
      positive_idx_per_question =
     (let q_num = int (length q_represenations) in
      if q_num \<noteq> int (length positive_idx_per_question) then Inl AssertionError
      else
        (let scores = sim_score_f q_represenations ctx_represenations;
             indices = torch_sort scores
         in bind (rank_loop indices 0 positive_idx_per_question 0) (\<lambda>rank.
            bind (if distributed_factor c > 1
                  then bind (all_gather_list env (rank, q_num))
                         (\<lambda>eval_stats. Inr (merge_stats (local_rank c) 0 eval_stats (rank, q_num)))
                  else Inr (rank, q_num)) (\<lambda>(rank, q_num).
            if q_num = 0 then Inl ZeroDivisionError
            else Inr (real_of_int rank / real_of_int q_num)))))"

section \<open>The loss coordinator\<close>

text \<open>
  A tensor of vectors: its rows, and whether it takes part in gradient tracking. Devices
  are not modelled, so \<^verbatim>\<open>.cpu()\<close> and \<^verbatim>\<open>.to(device)\<close> keep a tensor as it is.
\<close>

record tensor =
  rows :: "real list list"
  requires_grad :: bool

definition empty_like :: "tensor \<Rightarrow> tensor" where
  "empty_like t = \<lparr>rows = map (map (\<lambda>_. 0)) (rows t), requires_grad = False\<rparr>"

definition tensor_cpu :: "tensor \<Rightarrow> tensor" where
  "tensor_cpu t = t"

definition tensor_to :: "tensor \<Rightarrow> tensor" where
  "tensor_to t = t"

text \<open>\<^verbatim>\<open>dst.copy_(src)\<close>: the data of \<open>src\<close>; the copy is tracked when \<open>src\<close> is.\<close>

definition tensor_copy :: "tensor \<Rightarrow> tensor \<Rightarrow> tensor" where
  "tensor_copy dst src = \<lparr>rows = rows src, requires_grad = (requires_grad dst \<or> requires_grad src)\<rparr>"

definition tensor_detach :: "tensor \<Rightarrow> tensor" where
  "tensor_detach t = t\<lparr>requires_grad := False\<rparr>"

text \<open>\<^verbatim>\<open>torch.empty_like(v).cpu().copy_(v).detach_()\<close>\<close>

definition vector_to_send :: "tensor \<Rightarrow> tensor" where
  "vector_to_send v = tensor_detach (tensor_copy (tensor_cpu (empty_like v)) v)"

text \<open>
  \<^verbatim>\<open>torch.cat(ts, dim=0)\<close>: the rows of all tensors in order; the result is tracked when
  one of them is. It raises on an empty list and on rows of different widths.
\<close>

definition torch_cat :: "tensor list \<Rightarrow> error + tensor" where
  "torch_cat ts =
     (let all_rows = concat (map rows ts) in
      if ts = [] then Inl (RuntimeError ''torch.cat(): expected a non-empty list of Tensors'')
      else if list_ex (\<lambda>r. length r \<noteq> length (hd all_rows)) all_rows
      then Inl (RuntimeError ''Sizes of tensors must match except in dimension 0'')
      else Inr \<lparr>rows = all_rows, requires_grad = list_ex requires_grad ts\<rparr>)"

text \<open>What one worker hands to the gather, and what it receives for every rank.\<close>

record gather_item =
  q_vector :: tensor
  ctx_vectors :: tensor
  positive_idx :: "int list"
  hard_negatives_idxs :: "int list list option"

record pool_acc =
  global_q_vector :: "tensor list"
  global_ctxs_vector :: "tensor list"
  positive_idx_per_question :: "int list"
  hard_negatives_per_question :: "int list list"
  total_ctxs :: int

text \<open>
  The loop of lines 848-861 over the gathered items, \<open>i\<close> the index of
  \<^verbatim>\<open>enumerate\<close>. Iterating over hard negatives that are \<^verbatim>\<open>None\<close> raises.
\<close>

fun pool_loop ::
  "int \<Rightarrow> tensor \<Rightarrow> tensor \<Rightarrow> int list \<Rightarrow> int list list option \<Rightarrow> nat \<Rightarrow> gather_item list
     \<Rightarrow> pool_acc \<Rightarrow> error + pool_acc" where
  "pool_loop lr local_q_vector local_ctx_vectors local_positive_idxs local_hard_negatives_idxs
      i [] acc = Inr acc"
| "pool_loop lr local_q_vector local_ctx_vectors local_positive_idxs local_hard_negatives_idxs
      i (it # items) acc =
     (if int i \<noteq> lr then
        (case hard_negatives_idxs it of
           None \<Rightarrow> Inl TypeError
         | Some hns \<Rightarrow>
             pool_loop lr local_q_vector local_ctx_vectors local_positive_idxs
               local_hard_negatives_idxs (Suc i) items
               \<lparr>global_q_vector = global_q_vector acc @ [tensor_to (q_vector it)],
                global_ctxs_vector = global_ctxs_vector acc @ [tensor_to (ctx_vectors it)],
                positive_idx_per_question =
                  positive_idx_per_question acc @ map (\<lambda>v. v + total_ctxs acc) (positive_idx it),
                hard_negatives_per_question =
                  hard_negatives_per_question acc @ map (map (\<lambda>v. v + total_ctxs acc)) hns,
                total_ctxs = total_ctxs acc + int (length (rows (ctx_vectors it)))\<rparr>)
      else
        (case local_hard_negatives_idxs of
           None \<Rightarrow> Inl TypeError
         | Some hns \<Rightarrow>
             pool_loop lr local_q_vector local_ctx_vectors local_positive_idxs
               local_hard_negatives_idxs (Suc i) items
               \<lparr>global_q_vector = global_q_vector acc @ [local_q_vector],
                global_ctxs_vector = global_ctxs_vector acc @ [local_ctx_vectors],
                positive_idx_per_question =
                  positive_idx_per_question acc @ map (\<lambda>v. v + total_ctxs acc) local_positive_idxs,
                hard_negatives_per_question =
                  hard_negatives_per_question acc @ map (map (\<lambda>v. v + total_ctxs acc)) hns,
                total_ctxs = total_ctxs acc + int (length (rows (ctx_vectors it)))\<rparr>))"

text \<open>Lines 826-861: the payload, the gather and the loop.\<close>

definition gather_pools ::
  "cfg \<Rightarrow> gather_item dist_env \<Rightarrow> tensor \<Rightarrow> tensor \<Rightarrow> int list \<Rightarrow> int list list option
     \<Rightarrow> error + pool_acc" where
  "gather_pools c env local_q_vector local_ctx_vectors local_positive_idxs
      local_hard_negatives_idxs =
     bind (all_gather_list env
             \<lparr>q_vector = vector_to_send local_q_vector,
              ctx_vectors = vector_to_send local_ctx_vectors,
              positive_idx = local_positive_idxs,
              hard_negatives_idxs = local_hard_negatives_idxs\<rparr>)
       (\<lambda>global_question_ctx_vectors.
          pool_loop (local_rank c) local_q_vector local_ctx_vectors local_positive_idxs
            local_hard_negatives_idxs 0 global_question_ctx_vectors
            \<lparr>global_q_vector = [], global_ctxs_vector = [], positive_idx_per_question = [],
             hard_negatives_per_question = [], total_ctxs = 0\<rparr>)"

text \<open>
  Lines 824-869: the four arguments that \<^verbatim>\<open>_calc_loss\<close> passes to
  \<^verbatim>\<open>loss_function.calc\<close>.
\<close>

definition calc_loss_pools ::
  "cfg \<Rightarrow> gather_item dist_env \<Rightarrow> tensor \<Rightarrow> tensor \<Rightarrow> int list \<Rightarrow> int list list option
     \<Rightarrow> error + (tensor \<times> tensor \<times> int list \<times> int list list option)" where
  "calc_loss_pools c env local_q_vector local_ctx_vectors local_positive_idxs
      local_hard_negatives_idxs =
     (if distributed_factor c > 1 then
        bind (gather_pools c env local_q_vector local_ctx_vectors local_positive_idxs
                local_hard_negatives_idxs) (\<lambda>acc.
        bind (torch_cat (global_q_vector acc)) (\<lambda>gq.
        bind (torch_cat (global_ctxs_vector acc)) (\<lambda>gctx.
        Inr (gq, gctx, positive_idx_per_question acc, Some (hard_negatives_per_question acc)))))
      else Inr (local_q_vector, local_ctx_vectors, local_positive_idxs,
                local_hard_negatives_idxs))"

text \<open>\<^verbatim>\<open>_calc_loss\<close>, with the loss function's \<^verbatim>\<open>calc\<close> as a parameter.\<close>

definition calc_loss ::
  "cfg \<Rightarrow> (tensor \<Rightarrow> tensor \<Rightarrow> int list \<Rightarrow> int list list option \<Rightarrow> real option \<Rightarrow> error + 'r)
     \<Rightarrow> gather_item dist_env \<Rightarrow> tensor \<Rightarrow> tensor \<Rightarrow> int list \<Rightarrow> int list list option
     \<Rightarrow> real option \<Rightarrow> error + 'r" where
  "calc_loss c calc env local_q_vector local_ctx_vectors local_positive_idxs
      local_hard_negatives_idxs loss_scale =
     bind (calc_loss_pools c env local_q_vector local_ctx_vectors local_positive_idxs
             local_hard_negatives_idxs)
       (\<lambda>(gq, gctx, pos, hn). calc gq gctx pos hn loss_scale)"

section \<open>Example inputs\<close>

text \<open>Concrete configurations, states and outcomes at which the properties are evaluated.\<close>

definition example_train_cfg :: train_cfg where
  "example_train_cfg =
     \<lparr>higher_is_better = False, save_best_only = False, save_separate_models = False,
      eval_during_epoch = True, gradient_accumulation_steps = 1, eval_per_epoch = 2,
      num_train_epochs = 1, warmup_steps = 0, log_batch_step = 1, train_rolling_loss_step = 1\<rparr>"

definition example_cfg :: cfg where
  "example_cfg =
     \<lparr>train = example_train_cfg, local_rank = 0, distributed_world_size = None,
      val_av_rank_start_epoch = 0, dev_datasets = [''dev''], train_datasets = [''train''],
      model_file = None, customer_chunks = None, output_dir = ''out'',
      checkpoint_file_name = ''dpr_biencoder'', ignore_checkpoint_offset = False,
      ignore_checkpoint_optimizer = False\<rparr>"

definition example_trainer :: trainer where
  "example_trainer =
     \<lparr>start_epoch = 0, start_batch = 0, scheduler_state = None, best_validation_result = None,
      best_cp_name = None, model_weights = [], optimizer_state = [], events = []\<rparr>"

text \<open>A validation whose average rank is \<open>r\<close>; the corpus metrics are not asked for.\<close>

definition rank_outcome :: "real \<Rightarrow> val_outcome" where
  "rank_outcome r =
     \<lparr>nll_result = Inr [''Dev NLL loss'' \<mapsto> 1],
      ask_ai_result = Inl (RuntimeError ''not called''),
      average_rank_result = Inr r\<rparr>"

text \<open>A validation with corpus metrics: precision at 30 is \<open>p\<close>, the average rank \<open>r\<close>.\<close>

definition corpus_outcome :: "real \<Rightarrow> real \<Rightarrow> val_outcome" where
  "corpus_outcome p r =
     \<lparr>nll_result = Inr [''Dev NLL loss'' \<mapsto> 1],
      ask_ai_result = Inr [''p@30'' \<mapsto> p],
      average_rank_result = Inr r\<rparr>"

text \<open>No development set is configured; every validation routine would fail if called.\<close>

definition no_dev_cfg :: cfg where
  "no_dev_cfg = example_cfg\<lparr>dev_datasets := [], val_av_rank_start_epoch := 30\<rparr>"

definition failing_outcome :: val_outcome where
  "failing_outcome =
     \<lparr>nll_result = Inl (RuntimeError ''not called''),
      ask_ai_result = Inl (RuntimeError ''not called''),
      average_rank_result = Inl (RuntimeError ''not called'')\<rparr>"

definition example_saved_state :: checkpoint_state where
  "example_saved_state =
     \<lparr>model_dict = [1, 2], optimizer_dict = Some [(''step'', 10)],
      scheduler_dict = Some [(''last_epoch'', 10)], cp_offset = 0, cp_epoch = 3\<rparr>"

text \<open>Two training sources, the second one empty; two batches per epoch.\<close>

definition example_env :: train_env where
  "example_env =
     \<lparr>chunk_files = [], chunk_passages = [], source_iterations = [2, 0],
      batches_of_epoch =
        (\<lambda>e. [\<lparr>data_iteration = 1, loss_item = 1, correct_cnt = 1\<rparr>,
              \<lparr>data_iteration = 2, loss_item = 1, correct_cnt = 1\<rparr>]),
      validation = (\<lambda>e i. rank_outcome 1)\<rparr>"

text \<open>Validation during the epoch is switched off.\<close>

definition no_eval_cfg :: cfg where
  "no_eval_cfg = example_cfg\<lparr>train := example_train_cfg\<lparr>eval_during_epoch := False\<rparr>\<rparr>"

text \<open>Two training sources, both empty.\<close>

definition empty_env :: train_env where
  "empty_env = example_env\<lparr>source_iterations := [0, 0]\<rparr>"

text \<open>A configuration mapping with one nested mapping.\<close>

definition example_cfg_dict :: "(string \<times> conf) list" where
  "example_cfg_dict =
     [(''train'', Mapping [(''gradient_accumulation_steps'', Leaf ''0''),
                           (''batch_size'', Leaf ''16'')]),
      (''seed'', Leaf ''12345'')]"

text \<open>The example configuration with \<open>gradient_accumulation_steps\<close> set to 0.\<close>

definition zero_steps_cfg :: cfg where
  "zero_steps_cfg =
     example_cfg\<lparr>train := example_train_cfg\<lparr>gradient_accumulation_steps := 0\<rparr>\<rparr>"

section \<open>Observing the event log\<close>

text \<open>The validations among the events, in the order in which they ran.\<close>

fun is_validation :: "event \<Rightarrow> bool" where
  "is_validation (Validation epoch iteration save) = True"
| "is_validation _ = False"

definition validations :: "trainer \<Rightarrow> event list" where
  "validations tr = filter is_validation (events tr)"

text \<open>
  The validations that the specification expects of one epoch: one without saving at
  every batch whose iteration counter is a multiple of \<open>eval_step\<close>, when validation
  during the epoch is enabled, and one with saving after the last batch, at the last
  value of the counter (0 when the epoch had no batch).
\<close>

definition epoch_validations :: "bool \<Rightarrow> int \<Rightarrow> int \<Rightarrow> step list \<Rightarrow> event list" where
  "epoch_validations during eval_step epoch batches =
     (if during
      then map (\<lambda>s. Validation epoch (data_iteration s) False)
             (filter (\<lambda>s. data_iteration s mod eval_step = 0) batches)
      else [])
     @ [Validation epoch (if batches = [] then 0 else data_iteration (last batches)) True]"

section \<open>Notions of the specification\<close>

text \<open>
  The 0-based position of an element in a list: the number of elements before its first
  occurrence.
\<close>

definition position_of :: "'a list \<Rightarrow> 'a \<Rightarrow> nat" where
  "position_of xs x = length (takeWhile (\<lambda>y. y \<noteq> x) xs)"

text \<open>
  What the library promises of the indices it returns for one row of scores: they are the
  positions of the row, each once, and the scores along them do not increase. Equal scores
  may come in any order.
\<close>

definition descending_permutation :: "real list \<Rightarrow> nat list \<Rightarrow> bool" where
  "descending_permutation row inds =
     (distinct inds \<and> set inds = {0..<length row} \<and> sorted (map (\<lambda>j. - (row ! j)) inds))"

text \<open>
  The sum, over the questions, of the 0-based position of the question's gold passage in
  the sorted indices of the question's row.
\<close>

definition gold_rank_sum :: "nat list list \<Rightarrow> int list \<Rightarrow> int" where
  "gold_rank_sum indices positive_idxs =
     sum_list (map2 (\<lambda>inds idx. int (position_of inds (nat idx))) indices positive_idxs)"

text \<open>
  One answer that the library may give, for the examples: every row sorted stably, equal
  scores in the order of their positions.
\<close>

definition sort_descending :: "real list \<Rightarrow> nat list" where
  "sort_descending row = sort_key (\<lambda>j. - (row ! j)) [0..<length row]"

definition stable_sort_rows :: "real list list \<Rightarrow> nat list list" where
  "stable_sort_rows scores = map sort_descending scores"

text \<open>Another answer: the indices are given, whatever the scores.\<close>

definition fixed_indices :: "nat list list \<Rightarrow> real list list \<Rightarrow> nat list list" where
  "fixed_indices indices scores = indices"

text \<open>A similarity function for the examples: the rows are given, whatever the vectors.\<close>

definition fixed_scores :: "real list list \<Rightarrow> real list list \<Rightarrow> real list list \<Rightarrow> real list list" where
  "fixed_scores scores q ctx = scores"

text \<open>Three workers; this worker has rank 1, the others report (4, 3) and (1, 1).\<close>

definition stats_env :: "(int \<times> int) dist_env" where
  "stats_env = \<lparr>my_rank = 1, others = [(4, 3), (1, 1)], payload_fits = True\<rparr>"

definition multi_cfg :: cfg where
  "multi_cfg = example_cfg\<lparr>local_rank := 1, distributed_world_size := Some 3\<rparr>"

text \<open>
  The local inputs of a worker, as one record, and the item that a worker with these
  inputs hands to the gather when it runs lines 826-835.
\<close>

definition local_inputs ::
  "tensor \<Rightarrow> tensor \<Rightarrow> int list \<Rightarrow> int list list option \<Rightarrow> gather_item" where
  "local_inputs lq lc lp lh =
     \<lparr>q_vector = lq, ctx_vectors = lc, positive_idx = lp, hard_negatives_idxs = lh\<rparr>"

definition sent_item :: "gather_item \<Rightarrow> gather_item" where
  "sent_item w =
     \<lparr>q_vector = vector_to_send (q_vector w), ctx_vectors = vector_to_send (ctx_vectors w),
      positive_idx = positive_idx w, hard_negatives_idxs = hard_negatives_idxs w\<rparr>"

text \<open>The number of passages of a worker, and of all workers before rank \<open>j\<close>.\<close>

definition passage_count :: "gather_item \<Rightarrow> int" where
  "passage_count w = int (length (rows (ctx_vectors w)))"

definition running_offset :: "gather_item list \<Rightarrow> nat \<Rightarrow> int" where
  "running_offset ws j = sum_list (map passage_count (take j ws))"

text \<open>
  Two workers. Worker 0 has one question and two passages; worker 1, the calling worker,
  has one question and three passages, both tensors gradient-tracked.
\<close>

definition worker0 :: gather_item where
  "worker0 =
     \<lparr>q_vector = \<lparr>rows = [[1, 0]], requires_grad = True\<rparr>,
      ctx_vectors = \<lparr>rows = [[1, 1], [2, 2]], requires_grad = True\<rparr>,
      positive_idx = [0], hard_negatives_idxs = Some [[1]]\<rparr>"

definition worker1_q :: tensor where
  "worker1_q = \<lparr>rows = [[0, 1]], requires_grad = True\<rparr>"

definition worker1_ctx :: tensor where
  "worker1_ctx = \<lparr>rows = [[3, 3], [4, 4], [5, 5]], requires_grad = True\<rparr>"

definition pool_env :: "gather_item dist_env" where
  "pool_env = \<lparr>my_rank = 1, others = [sent_item worker0], payload_fits = True\<rparr>"

definition pool_cfg :: cfg where
  "pool_cfg = example_cfg\<lparr>local_rank := 1, distributed_world_size := Some 2\<rparr>"

section \<open>Properties: checkpoint names and the best-checkpoint tracker\<close>

lemmas example_defs =
  example_cfg_def example_train_cfg_def example_trainer_def rank_outcome_def corpus_outcome_def
  no_dev_cfg_def failing_outcome_def

lemmas validate_and_save_defs =
  validate_and_save_def compute_validation_loss_def save_step_def save_checkpoint_def
  best_model_found_test_def py_or_def emit_def bind_def lookup_def os_path_join_def str_int_def
  Let_def

lemma os_path_join_nonempty: "b \<noteq> [] \<Longrightarrow> os_path_join a b \<noteq> []"
  by (simp add: os_path_join_def)

lemma save_checkpoint_name_nonempty: "fst (save_checkpoint c e off sep best tr) \<noteq> []"
  by (simp add: save_checkpoint_def Let_def os_path_join_nonempty)

lemma save_checkpoint_keeps_best:
  "best_validation_result (snd (save_checkpoint c e off sep b tr)) = best_validation_result tr"
  "best_cp_name (snd (save_checkpoint c e off sep b tr)) = best_cp_name tr"
  by (simp_all add: save_checkpoint_def Let_def emit_def)

text \<open>With no tracked best, every value passes the test.\<close>

lemma best_model_found_test_None: "best_model_found_test hib None v"
  by (simp add: best_model_found_test_def py_or_def)

text \<open>Against a tracked best other than zero the test is the strict comparison.\<close>

lemma best_model_found_test_nonzero:
  "b \<noteq> 0 \<Longrightarrow> best_model_found_test hib (Some b) v = (if hib then v > b else v < b)"
  by (simp add: best_model_found_test_def py_or_def)

text \<open>A tracked best of zero counts as no tracked best: every value passes.\<close>

lemma best_model_found_test_zero: "best_model_found_test hib (Some 0) v"
  by (simp add: best_model_found_test_def py_or_def)

text \<open>The saving block on the saving rank, with the check of the name's truth value resolved.\<close>

lemma save_step_unfold:
  assumes "local_rank c = -1 \<or> local_rank c = 0"
  shows "save_step c epoch iteration True v tr =
     (let b = best_model_found_test (higher_is_better (train c)) (best_validation_result tr) v in
      if \<not> save_best_only (train c) \<or> b then
        (let r = save_checkpoint c epoch iteration (save_separate_models (train c))
                   (save_best_only (train c) \<and> b) tr
         in if b then (snd r)\<lparr>best_validation_result := Some v, best_cp_name := Some (fst r)\<rparr>
            else snd r)
      else tr)"
proof -
  obtain cp t where r: "save_checkpoint c epoch iteration (save_separate_models (train c))
      (save_best_only (train c) \<and>
       best_model_found_test (higher_is_better (train c)) (best_validation_result tr) v) tr = (cp, t)"
    by (cases "save_checkpoint c epoch iteration (save_separate_models (train c))
      (save_best_only (train c) \<and>
       best_model_found_test (higher_is_better (train c)) (best_validation_result tr) v) tr") auto
  have "cp \<noteq> []"
    using save_checkpoint_name_nonempty[of c epoch iteration "save_separate_models (train c)"
      "save_best_only (train c) \<and>
       best_model_found_test (higher_is_better (train c)) (best_validation_result tr) v" tr] r
    by simp
  then show ?thesis
    using assms r by (auto simp: save_step_def Let_def)
qed

lemma save_step_skipped:
  "\<not> save \<or> \<not> (local_rank c = -1 \<or> local_rank c = 0) \<Longrightarrow>
     save_step c epoch iteration save v tr = tr"
  by (auto simp: save_step_def Let_def)

lemma save_step_registers_when_unset:
  assumes "best_validation_result tr = None" "local_rank c = -1 \<or> local_rank c = 0"
  shows "best_validation_result (save_step c epoch iteration True v tr) = Some v"
  using assms
  by (simp add: save_step_unfold Let_def best_model_found_test_None)

text \<open>
  Where the tracked best is not zero, the tracker does what the specification says: the
  best value changes only to a strictly better one, in the direction of
  \<open>higher_is_better\<close>, and a value that is not strictly better leaves the best
  checkpoint name alone.
\<close>

lemma save_step_nonzero_best:
  assumes "best_validation_result tr = Some b" "b \<noteq> 0"
  shows "best_validation_result (save_step c epoch iteration save v tr) =
           (if save \<and> (local_rank c = -1 \<or> local_rank c = 0)
               \<and> (if higher_is_better (train c) then b < v else v < b)
            then Some v else Some b)"
    and "\<not> (if higher_is_better (train c) then b < v else v < b) \<Longrightarrow>
           best_cp_name (save_step c epoch iteration save v tr) = best_cp_name tr"
proof -
  show "best_validation_result (save_step c epoch iteration save v tr) =
           (if save \<and> (local_rank c = -1 \<or> local_rank c = 0)
               \<and> (if higher_is_better (train c) then b < v else v < b)
            then Some v else Some b)"
  proof (cases "save \<and> (local_rank c = -1 \<or> local_rank c = 0)")
    case True
    then show ?thesis
      using assms
      by (simp add: save_step_unfold Let_def best_model_found_test_nonzero
          save_checkpoint_keeps_best)
  next
    case False
    then show ?thesis using assms by (simp add: save_step_skipped)
  qed
next
  assume nb: "\<not> (if higher_is_better (train c) then b < v else v < b)"
  show "best_cp_name (save_step c epoch iteration save v tr) = best_cp_name tr"
  proof (cases "save \<and> (local_rank c = -1 \<or> local_rank c = 0)")
    case True
    then show ?thesis
      using assms nb
      by (simp add: save_step_unfold Let_def best_model_found_test_nonzero
          save_checkpoint_keeps_best)
  next
    case False
    then show ?thesis by (simp add: save_step_skipped)
  qed
qed

text \<open>
  The sequence of the specification: lower is better and the validation values are
  5, 3, 4, 3 at the ends of epochs 0 to 3. The first and the second value register a new
  best; the third and the fourth leave value and name alone.
\<close>

lemma tracker_sequence_example:
  "(case validate_and_save example_cfg 0 7 [] True (rank_outcome 5) example_trainer of
      (_, tr1) \<Rightarrow>
        best_validation_result tr1 = Some 5 \<and> best_cp_name tr1 = Some ''out/dpr_biencoder.0'' \<and>
     (case validate_and_save example_cfg 1 7 [] True (rank_outcome 3) tr1 of
      (_, tr2) \<Rightarrow>
        best_validation_result tr2 = Some 3 \<and> best_cp_name tr2 = Some ''out/dpr_biencoder.1'' \<and>
     (case validate_and_save example_cfg 2 7 [] True (rank_outcome 4) tr2 of
      (_, tr3) \<Rightarrow>
        best_validation_result tr3 = Some 3 \<and> best_cp_name tr3 = Some ''out/dpr_biencoder.1'' \<and>
     (case validate_and_save example_cfg 3 7 [] True (rank_outcome 3) tr3 of
      (_, tr4) \<Rightarrow>
        best_validation_result tr4 = Some 3 \<and> best_cp_name tr4 = Some ''out/dpr_biencoder.1''))))"
  by (simp add: validate_and_save_defs example_defs str_nat.simps)

text \<open>
  Claim C3. The specification has the tracked best value and checkpoint name change only
  on a strictly better validation value. The code compares with
  \<^verbatim>\<open>self.best_validation_result or validation_loss + 1\<close>, which reads a tracked best of
  zero as no tracked best. Here lower is better, the average rank at the end of epoch 0 is
  0 (every gold passage ranked first) and becomes the tracked best; at the end of epoch 1
  the average rank is 5, which is worse, and the code registers it as the new best value
  with the checkpoint of epoch 1 as the best checkpoint.
\<close>

theorem best_tracker_zero_best_is_replaced:
  "(case validate_and_save example_cfg 0 7 [] True (rank_outcome 0) example_trainer of
      (_, tr1) \<Rightarrow>
        best_validation_result tr1 = Some 0 \<and> best_cp_name tr1 = Some ''out/dpr_biencoder.0'' \<and>
        (case validate_and_save example_cfg 1 7 [] True (rank_outcome 5) tr1 of
           (_, tr2) \<Rightarrow> best_validation_result tr2 = Some 5
                     \<and> best_cp_name tr2 = Some ''out/dpr_biencoder.1''))"
  by (simp add: validate_and_save_defs example_defs str_nat.simps)

section \<open>Properties: validation without development sets\<close>

text \<open>
  Without development sets the validation routines are not consulted: whatever their
  outcome would be, the metrics are empty and the validation value is the constant 0.
\<close>

lemma no_dev_datasets_constant_zero:
  "dev_datasets c = [] \<Longrightarrow> compute_validation_loss c epoch all_passages out = Inr (Map.empty, 0)"
  by (simp add: compute_validation_loss_def)

text \<open>
  Claim C10. No development set is configured and lower is better. The claim expects only
  the first call to register a new best, later calls tying at 0. In the code the first
  call at the end of epoch 0 registers the value 0, and the call at the end of epoch 1
  registers a new best again: the best checkpoint name moves on to the checkpoint of
  epoch 1, because the tracked best 0 is read as no tracked best.
\<close>

theorem no_dev_datasets_every_call_registers_best:
  "(case validate_and_save no_dev_cfg 0 7 [] True failing_outcome example_trainer of
      (r1, tr1) \<Rightarrow>
        best_validation_result tr1 = Some 0 \<and> best_cp_name tr1 = Some ''out/dpr_biencoder.0'' \<and>
        (case validate_and_save no_dev_cfg 1 7 [] True failing_outcome tr1 of
           (r2, tr2) \<Rightarrow> best_validation_result tr2 = Some 0
                     \<and> best_cp_name tr2 = Some ''out/dpr_biencoder.1''))"
  by (simp add: validate_and_save_defs example_defs str_nat.simps)

section \<open>Properties: the scalar used for best-model selection\<close>

text \<open>
  Claim C4. With development sets configured and the validation routines returning
  (the loss dictionary holds its loss, the corpus dictionary its precision at 30 and no
  loss entry), the validation value is the precision at 30 when the corpus is not empty
  and the epoch has reached \<open>val_av_rank_start_epoch\<close>, the average rank when the corpus
  is empty and the epoch has reached it, and the loss before it. The saving block runs
  with this value, on a state whose tracked best has been reset when the epoch equals
  \<open>val_av_rank_start_epoch\<close>; on the saving rank such a call therefore always registers
  its value.
\<close>

theorem validation_scalar_selection:
  assumes "dev_datasets c \<noteq> []"
    and "nll_result out = Inr m" and "m ''Dev NLL loss'' = Some l"
    and "average_rank_result out = Inr r"
    and "all_passages \<noteq> [] \<longrightarrow>
           ask_ai_result out = Inr ir \<and> ir ''p@30'' = Some p \<and> ir ''Dev NLL loss'' = None"
    and "v = (if val_av_rank_start_epoch c \<le> epoch
              then (if all_passages \<noteq> [] then p else r) else l)"
    and "tr0 = emit (Validation epoch iteration save) tr"
  shows "(\<exists>metrics. compute_validation_loss c epoch all_passages out = Inr (metrics, v))
       \<and> snd (validate_and_save c epoch iteration all_passages save out tr) =
           save_step c epoch iteration save v
             (if epoch = val_av_rank_start_epoch c then tr0\<lparr>best_validation_result := None\<rparr>
              else tr0)
       \<and> (epoch = val_av_rank_start_epoch c \<and> save \<and> (local_rank c = -1 \<or> local_rank c = 0)
            \<longrightarrow> best_validation_result
                  (snd (validate_and_save c epoch iteration all_passages save out tr)) = Some v)"
proof -
  have cv: "\<exists>metrics. compute_validation_loss c epoch all_passages out = Inr (metrics, v)"
    using assms(1-6)
    by (cases "all_passages = []")
       (auto simp: compute_validation_loss_def bind_def lookup_def Let_def map_add_def)
  then obtain metrics where m: "compute_validation_loss c epoch all_passages out = Inr (metrics, v)"
    by blast
  have vs: "snd (validate_and_save c epoch iteration all_passages save out tr) =
           save_step c epoch iteration save v
             (if epoch = val_av_rank_start_epoch c then tr0\<lparr>best_validation_result := None\<rparr>
              else tr0)"
    using m assms(7) by (simp add: validate_and_save_def Let_def)
  show ?thesis
    using cv vs by (auto simp: save_step_registers_when_unset)
qed

theorem validation_scalar_selection_witness:
  "best_validation_result
     (snd (validate_and_save (example_cfg\<lparr>val_av_rank_start_epoch := 2\<rparr>) 2 7 [(0, ''chunk'')] True
        (corpus_outcome 40 3) (example_trainer\<lparr>best_validation_result := Some 1\<rparr>))) = Some 40"
proof -
  have "(2::int) = val_av_rank_start_epoch (example_cfg\<lparr>val_av_rank_start_epoch := 2\<rparr>) \<and> True
          \<and> (local_rank (example_cfg\<lparr>val_av_rank_start_epoch := 2\<rparr>) = -1
               \<or> local_rank (example_cfg\<lparr>val_av_rank_start_epoch := 2\<rparr>) = 0)
        \<longrightarrow> best_validation_result
     (snd (validate_and_save (example_cfg\<lparr>val_av_rank_start_epoch := 2\<rparr>) 2 7 [(0, ''chunk'')] True
        (corpus_outcome 40 3) (example_trainer\<lparr>best_validation_result := Some 1\<rparr>))) = Some 40"
    by (rule validation_scalar_selection
          [of "example_cfg\<lparr>val_av_rank_start_epoch := 2\<rparr>" "corpus_outcome 40 3"
              "[''Dev NLL loss'' \<mapsto> 1]" 1 3 "[(0, ''chunk'')]" "[''p@30'' \<mapsto> 40]" 40 40 2
              "emit (Validation 2 7 True) (example_trainer\<lparr>best_validation_result := Some 1\<rparr>)"
              7 True "example_trainer\<lparr>best_validation_result := Some 1\<rparr>",
           THEN conjunct2, THEN conjunct2])
       (simp_all add: example_defs)
  then show ?thesis by (simp add: example_defs)
qed

section \<open>Properties: loading a checkpoint\<close>

text \<open>
  Claim C7, as stated, fails. The stored offset is 0 and the stored epoch is 3. With
  \<open>ignore_checkpoint_offset\<close> set the start epoch is 0 and not 4, and the optimizer and
  scheduler states are restored all the same; with \<open>ignore_checkpoint_optimizer\<close> set the
  stored epoch is used all the same. No single flag makes the trainer ignore offset,
  optimizer state and scheduler state.
\<close>

theorem load_saved_state_single_flag_counterexample:
  "cp_offset example_saved_state = 0
   \<and> cp_epoch example_saved_state + 1 = 4
   \<and> ignore_checkpoint_offset (example_cfg\<lparr>ignore_checkpoint_offset := True\<rparr>)
   \<and> start_epoch (init_trainer (example_cfg\<lparr>ignore_checkpoint_offset := True\<rparr>)
        (Some example_saved_state) [] []) = 0
   \<and> optimizer_state (init_trainer (example_cfg\<lparr>ignore_checkpoint_offset := True\<rparr>)
        (Some example_saved_state) [] []) = [(''step'', 10)]
   \<and> scheduler_state (init_trainer (example_cfg\<lparr>ignore_checkpoint_offset := True\<rparr>)
        (Some example_saved_state) [] []) = Some [(''last_epoch'', 10)]
   \<and> ignore_checkpoint_optimizer (example_cfg\<lparr>ignore_checkpoint_optimizer := True\<rparr>)
   \<and> start_epoch (init_trainer (example_cfg\<lparr>ignore_checkpoint_optimizer := True\<rparr>)
        (Some example_saved_state) [] []) = 4"
  by (simp add: init_trainer_def load_saved_state_def example_saved_state_def example_defs
      dict_truth_def Let_def)

text \<open>
  Claim C7, amended. After a checkpoint is loaded the start batch is 0 whatever the stored
  offset. The start epoch is 0 when \<open>ignore_checkpoint_offset\<close> is set; otherwise it is
  the stored epoch plus one when the stored offset is 0, and the stored epoch when it is
  not. The model weights are always restored. A second flag,
  \<open>ignore_checkpoint_optimizer\<close>, governs the optimizer and scheduler states: when it is
  set neither is restored, when it is not each is restored if the stored one is not empty.
\<close>

theorem load_saved_state_two_flags:
  "start_batch (init_trainer c (Some s) w opt) = 0
   \<and> start_epoch (init_trainer c (Some s) w opt) =
       (if ignore_checkpoint_offset c then 0
        else if cp_offset s = 0 then cp_epoch s + 1 else cp_epoch s)
   \<and> model_weights (init_trainer c (Some s) w opt) = model_dict s
   \<and> optimizer_state (init_trainer c (Some s) w opt) =
       (if ignore_checkpoint_optimizer c then opt
        else if dict_truth (optimizer_dict s) then the (optimizer_dict s) else opt)
   \<and> scheduler_state (init_trainer c (Some s) w opt) =
       (if ignore_checkpoint_optimizer c then None
        else if dict_truth (scheduler_dict s) then scheduler_dict s else None)"
  by (simp add: init_trainer_def load_saved_state_def Let_def)

theorem load_saved_state_two_flags_witness:
  "start_batch (init_trainer example_cfg (Some example_saved_state) [] []) = 0
   \<and> start_epoch (init_trainer example_cfg (Some example_saved_state) [] []) = 4
   \<and> model_weights (init_trainer example_cfg (Some example_saved_state) [] []) = [1, 2]
   \<and> optimizer_state (init_trainer example_cfg (Some example_saved_state) [] []) = [(''step'', 10)]
   \<and> scheduler_state (init_trainer example_cfg (Some example_saved_state) [] [])
       = Some [(''last_epoch'', 10)]"
  using load_saved_state_two_flags [of example_cfg example_saved_state "[]" "[]"]
  by (simp add: example_saved_state_def example_defs dict_truth_def)

section \<open>Properties: the start-up check\<close>




lemma example_flatten_dict:
  "flatten_dict True example_cfg_dict =
     Inr [(''train_gradient_accumulation_steps'', ''0''), (''train_batch_size'', ''16''),
          (''seed'', ''12345'')]"
  by (simp add: flatten_dict_def example_cfg_dict_def dict_of_def Let_def)

text \<open>
  Claim C9, as stated, fails: with \<open>gradient_accumulation_steps\<close> at 0 the program
  does end with an exception before a trainer exists, but the exception need not be the
  one with the descriptive message. Two statements come before the check. When the
  environment variable of the login is not set, the program ends with the
  \<open>KeyError\<close> of the variable's name; when it is set and the interpreter has no
  \<^verbatim>\<open>collections.MutableMapping\<close>, it ends with the \<open>AttributeError\<close> raised while the
  configuration is flattened. Neither message mentions the parameter.
\<close>

theorem main_gradient_accumulation_steps_counterexample:
  "gradient_accumulation_steps (train zero_steps_cfg) = 0
   \<and> main zero_steps_cfg example_cfg_dict False True None [] [] example_env (rank_outcome 1) =
       (Inl (KeyError ''WANDB_API_KEY''), [])
   \<and> main zero_steps_cfg example_cfg_dict True False None [] [] example_env (rank_outcome 1) =
       (Inl (AttributeError ''module collections has no attribute MutableMapping''), [])"
  by (simp add: main_def zero_steps_cfg_def flatten_dict_def example_cfg_dict_def Let_def)



section \<open>Properties: the validation cadence\<close>

lemma validations_emit [simp]:
  "validations (emit e tr) = validations tr @ (if is_validation e then [e] else [])"
  by (simp add: validations_def emit_def)

lemma validations_save_checkpoint [simp]:
  "validations (snd (save_checkpoint c e off sep b tr)) = validations tr"
  by (simp add: save_checkpoint_def Let_def)

lemma validations_update [simp]:
  "validations (tr\<lparr>best_validation_result := x\<rparr>) = validations tr"
  "validations (tr\<lparr>best_cp_name := y\<rparr>) = validations tr"
  by (simp_all add: validations_def)

lemma validations_save_step [simp]:
  "validations (save_step c epoch iteration save v tr) = validations tr"
proof (cases "save \<and> (local_rank c = -1 \<or> local_rank c = 0)")
  case True
  then show ?thesis by (simp add: save_step_unfold Let_def)
next
  case False
  then show ?thesis by (simp add: save_step_skipped)
qed

lemma validations_validate_and_save [simp]:
  "validations (snd (validate_and_save c epoch iteration ps save out tr)) =
     validations tr @ [Validation epoch iteration save]"
  by (auto simp: validate_and_save_def Let_def split: sum.splits prod.splits)


lemma train_loop_validations:
  assumes "train_loop c epoch eval_step ps val i ss acc tr = (Inr acc', tr')"
  shows "validations tr' = validations tr @
           (if eval_during_epoch (train c)
            then map (\<lambda>s. Validation epoch (data_iteration s) False)
                   (filter (\<lambda>s. data_iteration s mod eval_step = 0) ss)
            else [])
       \<and> last_data_iteration acc' =
           (if ss = [] then last_data_iteration acc else data_iteration (last ss))"
  using assms
proof (induction ss arbitrary: i acc tr)
  case Nil
  then show ?case by simp
next
  case (Cons s ss)
  show ?case
  proof (cases "data_iteration s mod eval_step = 0 \<and> eval_during_epoch (train c)")
    case True
    from Cons.prems obtain acc2 tr2 r where
      v: "validate_and_save c epoch (data_iteration s) ps False (val epoch (data_iteration s))
            (if (int i + 1) mod gradient_accumulation_steps (train c) = 0
             then emit Optimizer_step tr else tr) = (Inr r, tr2)"
      and rest: "train_loop c epoch eval_step ps val (Suc i) ss acc2 tr2 = (Inr acc', tr')"
      and l: "last_data_iteration acc2 = data_iteration s"
      using True
      by (auto simp: py_mod_def Let_def split: if_splits sum.splits prod.splits)
    have "validations tr2 = validations tr @ [Validation epoch (data_iteration s) False]"
      using validations_validate_and_save[of c epoch "data_iteration s" ps False
          "val epoch (data_iteration s)"
          "if (int i + 1) mod gradient_accumulation_steps (train c) = 0
             then emit Optimizer_step tr else tr"] v
      by (simp split: if_splits)
    then show ?thesis
      using Cons.IH[OF rest] True l by simp
  next
    case False
    from Cons.prems obtain acc2 where
      rest: "train_loop c epoch eval_step ps val (Suc i) ss acc2
               (if (int i + 1) mod gradient_accumulation_steps (train c) = 0
                then emit Optimizer_step tr else tr) = (Inr acc', tr')"
      and l: "last_data_iteration acc2 = data_iteration s"
      using False
      by (auto simp: py_mod_def Let_def split: if_splits sum.splits prod.splits)
    show ?thesis
      using Cons.IH[OF rest] False l by (auto split: if_splits)
  qed
qed


lemma train_epoch_validations:
  assumes "train_epoch c epoch eval_step epoch_batches batches ps val tr = (Inr m, tr')"
  shows "validations tr' = validations tr @
           epoch_validations (eval_during_epoch (train c)) eval_step epoch batches"
proof -
  from assms obtain acc tr1 r where
    loop: "train_loop c epoch eval_step ps val 0 batches
             \<lparr>rolling_train_loss = 0, epoch_loss = 0, epoch_correct_predictions = 0,
              last_data_iteration = 0\<rparr> tr = (Inr acc, tr1)"
    and v: "validate_and_save c epoch (last_data_iteration acc) ps True
              (val epoch (last_data_iteration acc)) tr1 = (r, tr')"
    by (auto simp: train_epoch_def Let_def split: sum.splits prod.splits)
  have "validations tr' = validations tr1 @ [Validation epoch (last_data_iteration acc) True]"
    using validations_validate_and_save[of c epoch "last_data_iteration acc" ps True
        "val epoch (last_data_iteration acc)" tr1] v by simp
  then show ?thesis
    using train_loop_validations[OF loop] by (simp add: epoch_validations_def)
qed

lemma run_epochs_validations:
  assumes "run_epochs c eval_step max_its ps env eps tr = (Inr u, tr')"
  shows "validations tr' = validations tr @
           concat (map (\<lambda>ep. epoch_validations (eval_during_epoch (train c)) eval_step ep
                                (batches_of_epoch env ep)) eps)"
  using assms
proof (induction eps arbitrary: tr)
  case Nil
  then show ?case by simp
next
  case (Cons ep eps)
  from Cons.prems obtain m tr1 where
    e: "train_epoch c ep eval_step max_its (batches_of_epoch env ep) ps (validation env)
          (emit (Epoch_started ep) tr) = (Inr m, tr1)"
    and rest: "run_epochs c eval_step max_its ps env eps tr1 = (Inr u, tr')"
    by (auto split: sum.splits prod.splits)
  show ?case
    using train_epoch_validations[OF e] Cons.IH[OF rest] by simp
qed

lemma start_epoch_emit [simp]: "start_epoch (emit e tr) = start_epoch tr"
  by (simp add: emit_def)

lemma run_train_proceeds:
  assumes "\<not> (str_truth (customer_chunks c) \<and> chunk_files env = [])"
    and "get_max_iterations (source_iterations env) \<noteq> 0"
    and "gradient_accumulation_steps (train c) \<noteq> 0"
    and "scheduler_shift tr = Inr shift"
    and "ceil_div (get_max_iterations (source_iterations env)
                     div gradient_accumulation_steps (train c)) (eval_per_epoch (train c))
           = Inr eval_step"
  shows "run_train c env tr =
           run_epochs c eval_step (get_max_iterations (source_iterations env))
             (if str_truth (customer_chunks c)
              then chunk_passages env else []) env
             [start_epoch tr .. num_train_epochs (train c) - 1]
             (emit (Scheduler_built (warmup_steps (train c))
                      (get_max_iterations (source_iterations env)
                         div gradient_accumulation_steps (train c) * num_train_epochs (train c))
                      shift) tr)"
  using assms
  by (auto simp: run_train_def Let_def)

lemma run_train_returns:
  assumes "run_train c env tr = (Inr u, tr')"
    and "get_max_iterations (source_iterations env) \<noteq> 0"
  shows "\<not> (str_truth (customer_chunks c) \<and> chunk_files env = [])"
    and "gradient_accumulation_steps (train c) \<noteq> 0"
    and "\<exists>shift. scheduler_shift tr = Inr shift"
    and "\<exists>eval_step. ceil_div (get_max_iterations (source_iterations env)
                     div gradient_accumulation_steps (train c)) (eval_per_epoch (train c))
           = Inr eval_step"
proof -
  show 1: "\<not> (str_truth (customer_chunks c) \<and> chunk_files env = [])"
    using assms(1) by (auto simp: run_train_def)
  show 2: "gradient_accumulation_steps (train c) \<noteq> 0"
    using assms 1 by (auto simp: run_train_def Let_def)
  show 3: "\<exists>shift. scheduler_shift tr = Inr shift"
  proof (cases "scheduler_shift tr")
    case (Inl e)
    then have "run_train c env tr = (Inl e, tr)"
      using assms(2) 1 2 by (auto simp: run_train_def Let_def)
    then show ?thesis using assms(1) by simp
  next
    case (Inr x)
    then show ?thesis by simp
  qed
  then obtain shift where sh: "scheduler_shift tr = Inr shift" by blast
  show "\<exists>eval_step. ceil_div (get_max_iterations (source_iterations env)
                     div gradient_accumulation_steps (train c)) (eval_per_epoch (train c))
           = Inr eval_step"
  proof (cases "ceil_div (get_max_iterations (source_iterations env)
                     div gradient_accumulation_steps (train c)) (eval_per_epoch (train c))")
    case (Inl e)
    then have "fst (run_train c env tr) = Inl e"
      using assms(2) 1 2 sh by (auto simp: run_train_def Let_def)
    then show ?thesis using assms(1) by simp
  next
    case (Inr x)
    then show ?thesis by simp
  qed
qed

lemmas run_defs =
  run_train_def get_max_iterations_def scheduler_shift_def dict_truth_def str_truth_def
  ceil_div_def train_epoch_def py_mod_def example_env_def validations_def
  epoch_validations_def

lemma example_run:
  "fst (run_train example_cfg example_env example_trainer) = Inr ()
   \<and> validations (snd (run_train example_cfg example_env example_trainer)) =
       [Validation 0 1 False, Validation 0 2 False, Validation 0 2 True]"
  by (simp add: run_defs validate_and_save_defs example_defs upto.simps str_nat.simps)


text \<open>
  Claim C6, as stated, fails. With \<open>eval_during_epoch\<close> switched off, one epoch of two
  batches with iteration counters 1 and 2, and \<open>eval_step\<close> = ceil(2 / 2) = 1, the run
  returns normally and its only validation is the one at the end of the epoch: the batches
  whose counters are multiples of \<open>eval_step\<close> are not validated.
\<close>

theorem validation_cadence_counterexample:
  "fst (run_train no_eval_cfg example_env example_trainer) = Inr ()
   \<and> ceil_div (get_max_iterations (source_iterations example_env)
                 div gradient_accumulation_steps (train no_eval_cfg))
        (eval_per_epoch (train no_eval_cfg)) = Inr 1
   \<and> map data_iteration (batches_of_epoch example_env 0) = [1, 2]
   \<and> validations (snd (run_train no_eval_cfg example_env example_trainer)) =
       [Validation 0 2 True]"
  by (simp add: run_defs no_eval_cfg_def validate_and_save_defs example_defs upto.simps str_nat.simps)


text \<open>
  Claim C6, amended. In a training run that has data and returns normally,
  \<open>eval_step\<close> is ceil(updates_per_epoch / eval_per_epoch) with
  updates_per_epoch = max_iterations div gradient_accumulation_steps, and the validations
  of the run are, epoch after epoch from the start epoch to the last one: when
  \<open>eval_during_epoch\<close> is set, one validation without saving at every batch whose
  iteration counter is a multiple of \<open>eval_step\<close>; and in every case one validation with
  saving at the end of the epoch.
\<close>

theorem validation_cadence:
  assumes "run_train c env tr = (Inr (), tr')"
    and "get_max_iterations (source_iterations env) \<noteq> 0"
  shows "\<exists>eval_step.
           ceil_div (get_max_iterations (source_iterations env)
                       div gradient_accumulation_steps (train c)) (eval_per_epoch (train c))
             = Inr eval_step
         \<and> validations tr' = validations tr @
             concat (map (\<lambda>ep. epoch_validations (eval_during_epoch (train c)) eval_step ep
                                  (batches_of_epoch env ep))
                       [start_epoch tr .. num_train_epochs (train c) - 1])"
proof -
  from run_train_returns[OF assms] obtain shift eval_step where
    sh: "scheduler_shift tr = Inr shift"
    and cd: "ceil_div (get_max_iterations (source_iterations env)
                       div gradient_accumulation_steps (train c)) (eval_per_epoch (train c))
             = Inr eval_step"
    by blast
  have "validations tr' =
          validations (emit (Scheduler_built (warmup_steps (train c))
                      (get_max_iterations (source_iterations env)
                         div gradient_accumulation_steps (train c) * num_train_epochs (train c))
                      shift) tr) @
             concat (map (\<lambda>ep. epoch_validations (eval_during_epoch (train c)) eval_step ep
                                  (batches_of_epoch env ep))
                       [start_epoch tr .. num_train_epochs (train c) - 1])"
    using run_train_proceeds[OF run_train_returns(1)[OF assms] assms(2) run_train_returns(2)[OF assms] sh cd] assms(1)
    by (intro run_epochs_validations[where u="()"]) simp
  then show ?thesis using cd by simp
qed



theorem validation_cadence_witness:
  "validations (snd (run_train example_cfg example_env example_trainer)) =
       [Validation 0 1 False, Validation 0 2 False, Validation 0 2 True]"
proof -
  have r: "run_train example_cfg example_env example_trainer =
          (Inr (), snd (run_train example_cfg example_env example_trainer))"
    using example_run by (simp add: prod_eq_iff)
  have m: "get_max_iterations (source_iterations example_env) \<noteq> 0"
    by (simp add: get_max_iterations_def example_env_def)
  show ?thesis
    using validation_cadence [OF r m]
    by (simp add: get_max_iterations_def ceil_div_def example_env_def validations_def
        epoch_validations_def example_defs upto.simps)
qed


section \<open>Properties: training without data\<close>

lemma events_emit: "set (events tr) \<subseteq> set (events (emit e tr))"
  by (auto simp: emit_def)

lemma events_save_step: "set (events tr) \<subseteq> set (events (save_step c epoch iteration save v tr))"
proof (cases "save \<and> (local_rank c = -1 \<or> local_rank c = 0)")
  case True
  then show ?thesis
    by (auto simp: save_step_unfold Let_def save_checkpoint_def emit_def)
next
  case False
  then show ?thesis by (simp add: save_step_skipped)
qed

lemma events_validate_and_save:
  "set (events tr) \<subseteq> set (events (snd (validate_and_save c epoch iteration ps save out tr)))"
proof -
  define tr1 where "tr1 = (if epoch = val_av_rank_start_epoch c
      then (emit (Validation epoch iteration save) tr)\<lparr>best_validation_result := None\<rparr>
      else emit (Validation epoch iteration save) tr)"
  have e1: "set (events tr) \<subseteq> set (events tr1)"
    by (auto simp: tr1_def emit_def)
  show ?thesis
  proof (cases "compute_validation_loss c epoch ps out")
    case (Inl e)
    then have "snd (validate_and_save c epoch iteration ps save out tr) = tr1"
      by (simp add: validate_and_save_def Let_def tr1_def)
    then show ?thesis using e1 by simp
  next
    case (Inr mv)
    then have "snd (validate_and_save c epoch iteration ps save out tr) =
               save_step c epoch iteration save (snd mv) tr1"
      by (cases mv) (simp add: validate_and_save_def Let_def tr1_def)
    then show ?thesis
      using e1 events_save_step[of tr1 c epoch iteration save "snd mv"] by simp
  qed
qed

lemma events_train_loop:
  "set (events tr) \<subseteq> set (events (snd (train_loop c epoch es ps val i ss acc tr)))"
proof (induction ss arbitrary: i acc tr)
  case Nil
  then show ?case by simp
next
  case (Cons s ss)
  define tr1 where
    "tr1 = (if (int i + 1) mod gradient_accumulation_steps (train c) = 0
            then emit Optimizer_step tr else tr)"
  define v where
    "v = validate_and_save c epoch (data_iteration s) ps False (val epoch (data_iteration s)) tr1"
  have s1: "set (events tr) \<subseteq> set (events tr1)"
    by (auto simp: tr1_def emit_def)
  have s2: "set (events tr1) \<subseteq> set (events (snd v))"
    unfolding v_def by (rule events_validate_and_save)
  define acc2 where
    "acc2 = (if (int i + 1) mod train_rolling_loss_step (train c) = 0
             then acc\<lparr>last_data_iteration := data_iteration s,
                      epoch_correct_predictions := epoch_correct_predictions acc + correct_cnt s,
                      epoch_loss := epoch_loss acc + loss_item s,
                      rolling_train_loss := rolling_train_loss acc + loss_item s,
                      rolling_train_loss := 0\<rparr>
             else acc\<lparr>last_data_iteration := data_iteration s,
                      epoch_correct_predictions := epoch_correct_predictions acc + correct_cnt s,
                      epoch_loss := epoch_loss acc + loss_item s,
                      rolling_train_loss := rolling_train_loss acc + loss_item s\<rparr>)"
  let ?r = "snd (train_loop c epoch es ps val i (s # ss) acc tr)"
  consider (stop0) "?r = tr" | (stop1) "?r = tr1" | (stop2) "?r = snd v"
    | (go1) "?r = snd (train_loop c epoch es ps val (Suc i) ss acc2 tr1)"
    | (go2) "?r = snd (train_loop c epoch es ps val (Suc i) ss acc2 (snd v))"
  proof (cases "gradient_accumulation_steps (train c) = 0")
    case True
    then have "?r = tr" by (simp add: py_mod_def)
    then show ?thesis by (rule stop0)
  next
    case g: False
    show ?thesis
    proof (cases "log_batch_step (train c) = 0 \<or> train_rolling_loss_step (train c) = 0 \<or> es = 0")
      case True
      have "?r = tr1"
      proof (cases "log_batch_step (train c) = 0")
        case True
        then show ?thesis
          using g by (simp add: py_mod_def Let_def tr1_def split del: if_split cong: if_cong)
      next
        case l: False
        show ?thesis
        proof (cases "train_rolling_loss_step (train c) = 0")
          case True
          then show ?thesis
            using g l by (simp add: py_mod_def Let_def tr1_def split del: if_split cong: if_cong)
        next
          case False
          then have "es = 0" using True l by simp
          then show ?thesis
            using g l False
            by (simp add: py_mod_def Let_def tr1_def split del: if_split cong: if_cong)
        qed
      qed
      then show ?thesis by (rule stop1)
    next
      case ok: False
      show ?thesis
      proof (cases "data_iteration s mod es = 0 \<and> eval_during_epoch (train c)")
        case False
        then have nc: "(data_iteration s mod es = 0 \<and> eval_during_epoch (train c)) = False"
          by simp
        have "?r = snd (train_loop c epoch es ps val (Suc i) ss acc2 tr1)"
          using g ok
          by (simp add: py_mod_def Let_def tr1_def acc2_def nc split del: if_split cong: if_cong)
        then show ?thesis by (rule go1)
      next
        case True
        then have yc: "(data_iteration s mod es = 0 \<and> eval_during_epoch (train c)) = True"
          by simp
        obtain r t where vv: "v = (r, t)" by (cases v) auto
        show ?thesis
        proof (cases r)
          case (Inl e)
          then have "?r = snd v"
            using g ok vv[unfolded v_def tr1_def]
            by (simp add: py_mod_def Let_def tr1_def v_def yc split del: if_split cong: if_cong)
          then show ?thesis by (rule stop2)
        next
          case (Inr m)
          then have "?r = snd (train_loop c epoch es ps val (Suc i) ss acc2 (snd v))"
            using g ok vv[unfolded v_def tr1_def]
            by (simp add: py_mod_def Let_def tr1_def v_def acc2_def yc split del: if_split
                cong: if_cong)
          then show ?thesis by (rule go2)
        qed
      qed
    qed
  qed
  then show ?case
  proof cases
    case stop0
    then show ?thesis by simp
  next
    case stop1
    then show ?thesis using s1 by simp
  next
    case stop2
    then show ?thesis using s1 s2 by (metis order_trans)
  next
    case go1
    then show ?thesis using s1 Cons.IH[of tr1 "Suc i" acc2] by (metis order_trans)
  next
    case go2
    then show ?thesis using s1 s2 Cons.IH[of "snd v" "Suc i" acc2] by (metis order_trans)
  qed
qed

lemma events_train_epoch:
  "set (events tr) \<subseteq>
     set (events (snd (train_epoch c epoch es epoch_batches batches ps val tr)))"
proof -
  define init where "init = \<lparr>rolling_train_loss = 0, epoch_loss = 0,
     epoch_correct_predictions = 0, last_data_iteration = (0::int)\<rparr>"
  obtain r tr1 where l: "train_loop c epoch es ps val 0 batches init tr = (r, tr1)"
    by (cases "train_loop c epoch es ps val 0 batches init tr") auto
  have s1: "set (events tr) \<subseteq> set (events tr1)"
    using events_train_loop[of tr c epoch es ps val 0 batches init] l by simp
  show ?thesis
  proof (cases r)
    case (Inl e)
    then have "snd (train_epoch c epoch es epoch_batches batches ps val tr) = tr1"
      using l by (simp add: train_epoch_def init_def)
    then show ?thesis using s1 by simp
  next
    case (Inr acc)
    then have "snd (train_epoch c epoch es epoch_batches batches ps val tr) =
            snd (validate_and_save c epoch (last_data_iteration acc) ps True
                   (val epoch (last_data_iteration acc)) tr1)"
      using l by (auto simp: train_epoch_def init_def Let_def split: sum.splits prod.splits)
    then show ?thesis
      using s1 events_validate_and_save[of tr1 c epoch "last_data_iteration acc" ps True
          "val epoch (last_data_iteration acc)"]
      by (metis order_trans)
  qed
qed

lemma events_run_epochs:
  "set (events tr) \<subseteq> set (events (snd (run_epochs c es max_its ps env eps tr)))"
proof (induction eps arbitrary: tr)
  case Nil
  then show ?case by simp
next
  case (Cons ep eps)
  define tr1 where "tr1 = snd (train_epoch c ep es max_its (batches_of_epoch env ep) ps
                                 (validation env) (emit (Epoch_started ep) tr))"
  have s1: "set (events tr) \<subseteq> set (events tr1)"
    unfolding tr1_def
    using events_emit[of tr "Epoch_started ep"]
      events_train_epoch[of "emit (Epoch_started ep) tr" c ep es max_its
        "batches_of_epoch env ep" ps "validation env"]
    by (rule order_trans)
  have "snd (run_epochs c es max_its ps env (ep # eps) tr) = tr1
        \<or> snd (run_epochs c es max_its ps env (ep # eps) tr) =
            snd (run_epochs c es max_its ps env eps tr1)"
    by (auto simp: tr1_def split: sum.splits prod.splits)
  then show ?case
    using s1 Cons.IH[of tr1] by (metis order_trans)
qed

lemma epoch_started_run_epochs:
  "Epoch_started ep \<in> set (events (snd (run_epochs c es max_its ps env (ep # eps) tr)))"
proof -
  define tr1 where "tr1 = snd (train_epoch c ep es max_its (batches_of_epoch env ep) ps
                                 (validation env) (emit (Epoch_started ep) tr))"
  have s1: "Epoch_started ep \<in> set (events tr1)"
    unfolding tr1_def
    using events_train_epoch[of "emit (Epoch_started ep) tr" c ep es max_its
        "batches_of_epoch env ep" ps "validation env"]
    by (auto simp: emit_def)
  have "snd (run_epochs c es max_its ps env (ep # eps) tr) = tr1
        \<or> snd (run_epochs c es max_its ps env (ep # eps) tr) =
            snd (run_epochs c es max_its ps env eps tr1)"
    by (auto simp: tr1_def split: sum.splits prod.splits)
  then show ?thesis
    using s1 events_run_epochs[of tr1 c es max_its ps env eps] by auto
qed

lemma sum_list_nonneg_pos:
  fixes xs :: "int list"
  assumes "list_all (\<lambda>n. 0 \<le> n) xs" "list_ex (\<lambda>n. 0 < n) xs"
  shows "0 < sum_list xs"
  using assms
proof (induction xs)
  case Nil
  then show ?case by simp
next
  case (Cons x xs)
  have "0 \<le> sum_list xs"
    using Cons.prems(1) by (auto simp: list_all_iff intro: sum_list_nonneg)
  then show ?case
    using Cons by (auto simp: list_all_iff)
qed

lemma sum_list_all_zero:
  fixes xs :: "int list"
  shows "list_all (\<lambda>n. n = 0) xs \<Longrightarrow> sum_list xs = 0"
  by (induction xs) auto

lemma run_train_no_data:
  assumes "get_max_iterations (source_iterations env) = 0"
  shows "run_train c env tr =
           (if str_truth (customer_chunks c) \<and> chunk_files env = []
            then (Inl (ValueError (''File descriptor '' @ the (customer_chunks c)
                                    @ '' is not configured.'')), tr)
            else (Inr (), emit (Warning ''No data found for training.'') tr))"
  using assms by (simp add: run_train_def Let_def)

lemma run_train_some_data:
  assumes "list_all (\<lambda>n. 0 \<le> n) (source_iterations env)"
    and "list_ex (\<lambda>n. 0 < n) (source_iterations env)"
    and "\<not> (str_truth (customer_chunks c) \<and> chunk_files env = [])"
    and "1 \<le> gradient_accumulation_steps (train c)"
    and "scheduler_shift tr = Inr shift"
    and "eval_per_epoch (train c) \<noteq> 0"
  shows "get_max_iterations (source_iterations env) \<noteq> 0"
    and "Scheduler_built (warmup_steps (train c))
           (get_max_iterations (source_iterations env) div gradient_accumulation_steps (train c)
              * num_train_epochs (train c)) shift
         \<in> set (events (snd (run_train c env tr)))"
    and "start_epoch tr < num_train_epochs (train c) \<Longrightarrow>
         Epoch_started (start_epoch tr) \<in> set (events (snd (run_train c env tr)))"
proof -
  show m: "get_max_iterations (source_iterations env) \<noteq> 0"
    using sum_list_nonneg_pos[OF assms(1,2)] by (simp add: get_max_iterations_def)
  have g: "gradient_accumulation_steps (train c) \<noteq> 0" using assms(4) by simp
  obtain eval_step where cd:
    "ceil_div (get_max_iterations (source_iterations env)
                 div gradient_accumulation_steps (train c)) (eval_per_epoch (train c))
       = Inr eval_step"
    using assms(6) by (simp add: ceil_div_def)
  note r = run_train_proceeds[OF assms(3) m g assms(5) cd]
  show "Scheduler_built (warmup_steps (train c))
           (get_max_iterations (source_iterations env) div gradient_accumulation_steps (train c)
              * num_train_epochs (train c)) shift
         \<in> set (events (snd (run_train c env tr)))"
    unfolding r
    by (rule subsetD[OF events_run_epochs]) (simp add: emit_def)
  assume "start_epoch tr < num_train_epochs (train c)"
  then have "[start_epoch tr .. num_train_epochs (train c) - 1] =
             start_epoch tr # [start_epoch tr + 1 .. num_train_epochs (train c) - 1]"
    by (simp add: upto_rec1)
  then show "Epoch_started (start_epoch tr) \<in> set (events (snd (run_train c env tr)))"
    unfolding r by (simp only: epoch_started_run_epochs)
qed

text \<open>
  Claim C8. When every source has zero batches, \<open>max_iterations\<close> is 0. When
  \<open>max_iterations\<close> is 0, \<open>run_train\<close> either raises for a corpus descriptor without
  files, leaving the trainer as it was, or returns normally with one more event, the
  warning: no scheduler is built, no epoch is started, no checkpoint is written. When the
  batch counts are not negative and one of them is positive (others may be 0),
  \<open>max_iterations\<close> is not 0 and, with the corpus descriptor in order, at least one
  accumulation step per update, a usable scheduler state and \<open>eval_per_epoch\<close> not 0,
  the scheduler is built and the first epoch is started if there is one to run.
\<close>

theorem run_train_without_data:
  "(list_all (\<lambda>n. n = 0) (source_iterations env)
      \<longrightarrow> get_max_iterations (source_iterations env) = 0)
   \<and> (get_max_iterations (source_iterations env) = 0 \<longrightarrow>
        run_train c env tr =
          (if str_truth (customer_chunks c) \<and> chunk_files env = []
           then (Inl (ValueError (''File descriptor '' @ the (customer_chunks c)
                                   @ '' is not configured.'')), tr)
           else (Inr (), emit (Warning ''No data found for training.'') tr)))
   \<and> (list_all (\<lambda>n. 0 \<le> n) (source_iterations env)
        \<and> list_ex (\<lambda>n. 0 < n) (source_iterations env)
        \<and> \<not> (str_truth (customer_chunks c) \<and> chunk_files env = [])
        \<and> 1 \<le> gradient_accumulation_steps (train c)
        \<and> scheduler_shift tr = Inr shift
        \<and> eval_per_epoch (train c) \<noteq> 0
      \<longrightarrow> get_max_iterations (source_iterations env) \<noteq> 0
        \<and> Scheduler_built (warmup_steps (train c))
             (get_max_iterations (source_iterations env) div gradient_accumulation_steps (train c)
                * num_train_epochs (train c)) shift
           \<in> set (events (snd (run_train c env tr)))
        \<and> (start_epoch tr < num_train_epochs (train c) \<longrightarrow>
             Epoch_started (start_epoch tr) \<in> set (events (snd (run_train c env tr)))))"
proof (intro conjI impI)
  assume "list_all (\<lambda>n. n = 0) (source_iterations env)"
  then show "get_max_iterations (source_iterations env) = 0"
    by (simp add: get_max_iterations_def sum_list_all_zero)
next
  assume "get_max_iterations (source_iterations env) = 0"
  then show "run_train c env tr =
          (if str_truth (customer_chunks c) \<and> chunk_files env = []
           then (Inl (ValueError (''File descriptor '' @ the (customer_chunks c)
                                   @ '' is not configured.'')), tr)
           else (Inr (), emit (Warning ''No data found for training.'') tr))"
    by (rule run_train_no_data)
next
  assume a: "list_all (\<lambda>n. 0 \<le> n) (source_iterations env)
        \<and> list_ex (\<lambda>n. 0 < n) (source_iterations env)
        \<and> \<not> (str_truth (customer_chunks c) \<and> chunk_files env = [])
        \<and> 1 \<le> gradient_accumulation_steps (train c)
        \<and> scheduler_shift tr = Inr shift
        \<and> eval_per_epoch (train c) \<noteq> 0"
  show "get_max_iterations (source_iterations env) \<noteq> 0"
    using a by (intro run_train_some_data(1)[of env c tr shift]) simp_all
  show "Scheduler_built (warmup_steps (train c))
             (get_max_iterations (source_iterations env) div gradient_accumulation_steps (train c)
                * num_train_epochs (train c)) shift
           \<in> set (events (snd (run_train c env tr)))"
    using a by (intro run_train_some_data(2)[of env c tr shift]) simp_all
  assume "start_epoch tr < num_train_epochs (train c)"
  then show "Epoch_started (start_epoch tr) \<in> set (events (snd (run_train c env tr)))"
    using a by (intro run_train_some_data(3)[of env c tr shift]) simp_all
qed

theorem run_train_without_data_witness:
  "run_train example_cfg empty_env example_trainer =
     (Inr (), example_trainer\<lparr>events := [Warning ''No data found for training.'']\<rparr>)
   \<and> Scheduler_built 0 2 0 \<in> set (events (snd (run_train example_cfg example_env example_trainer)))
   \<and> Epoch_started 0 \<in> set (events (snd (run_train example_cfg example_env example_trainer)))"
  using run_train_without_data [of empty_env example_cfg example_trainer 0]
    run_train_without_data [of example_env example_cfg example_trainer 0]
  by (simp add: get_max_iterations_def example_env_def empty_env_def example_defs str_truth_def
      scheduler_shift_def dict_truth_def emit_def)

section \<open>Properties: the average rank\<close>

lemma position_of_nth:
  assumes "distinct ys" "k < length ys"
  shows "position_of ys (ys ! k) = k"
proof -
  have "takeWhile (\<lambda>y. y \<noteq> ys ! k) ys = take k ys"
  proof (rule takeWhile_eq_take_P_nth)
    fix i assume "i < k" "i < length ys"
    then show "ys ! i \<noteq> ys ! k"
      using assms by (simp add: nth_eq_iff_index_eq)
  next
    show "\<not> ys ! k \<noteq> ys ! k" by simp
  qed
  then show ?thesis using assms by (simp add: position_of_def)
qed

lemma filter_upt_single:
  "j < n \<Longrightarrow> P j \<Longrightarrow> (\<forall>k<n. P k \<longrightarrow> k = j) \<Longrightarrow> filter P [0..<n] = [j]"
proof (induction n)
  case 0
  then show ?case by simp
next
  case (Suc n)
  show ?case
  proof (cases "j = n")
    case True
    have "\<forall>k<n. \<not> P k"
    proof (intro allI impI notI)
      fix k assume "k < n" "P k"
      then have "k = j" using Suc.prems(3) by simp
      then show False using True \<open>k < n\<close> by simp
    qed
    then have "filter P [0..<n] = []"
      by (simp add: filter_empty_conv)
    then show ?thesis using True Suc.prems(2) by simp
  next
    case False
    then have "j < n" using Suc.prems(1) by simp
    moreover have "\<forall>k<n. P k \<longrightarrow> k = j" using Suc.prems(3) by simp
    ultimately have "filter P [0..<n] = [j]" using Suc.IH Suc.prems(2) by blast
    moreover have "\<not> P n" using Suc.prems(3) False by auto
    ultimately show ?thesis by simp
  qed
qed

lemma nonzero_eq_position:
  assumes "distinct inds" "0 \<le> idx" "nat idx \<in> set inds"
  shows "nonzero_eq inds idx = [position_of inds (nat idx)]"
proof -
  obtain k where k: "k < length inds" "inds ! k = nat idx"
    using assms(3) by (auto simp: in_set_conv_nth)
  have p: "position_of inds (nat idx) = k"
    using position_of_nth[OF assms(1) k(1)] k(2) by simp
  have "filter (\<lambda>j. int (inds ! j) = idx) [0..<length inds] = [k]"
  proof (rule filter_upt_single)
    show "k < length inds" by (rule k)
    show "int (inds ! k) = idx" using k assms(2) by simp
    show "\<forall>j<length inds. int (inds ! j) = idx \<longrightarrow> j = k"
    proof (intro allI impI)
      fix j assume j: "j < length inds" "int (inds ! j) = idx"
      then have "inds ! j = inds ! k" using k assms(2) by simp
      then show "j = k" using assms(1) j(1) k(1) by (simp add: nth_eq_iff_index_eq)
    qed
  qed
  then show ?thesis by (simp add: nonzero_eq_def p)
qed

lemma descending_permutation_length:
  assumes "descending_permutation row inds"
  shows "length inds = length row"
proof -
  from assms have d: "distinct inds" and s: "set inds = {0..<length row}"
    by (simp_all add: descending_permutation_def)
  have "length inds = card (set inds)" using d by (simp add: distinct_card)
  also have "\<dots> = length row" unfolding s by simp
  finally show ?thesis .
qed

lemma sort_descending_permutation:
  "descending_permutation row (sort_descending row)"
  by (simp add: descending_permutation_def sort_descending_def)

lemma stable_sort_rows_permutation:
  "list_all2 descending_permutation scores (stable_sort_rows scores)"
  by (simp add: stable_sort_rows_def list_all2_map2 list_all2_same sort_descending_permutation)

lemma rank_loop_positions:
  assumes "list_all2 (\<lambda>inds idx. distinct inds \<and> 0 \<le> idx \<and> nat idx \<in> set inds)
             (drop i indices) idxs"
  shows "rank_loop indices i idxs rank =
           Inr (rank + sum_list (map2 (\<lambda>inds idx. int (position_of inds (nat idx)))
                                   (drop i indices) idxs))"
  using assms
proof (induction idxs arbitrary: i rank rule: list.induct)
  case Nil
  then show ?case by simp
next
  case (Cons idx idxs)
  from Cons.prems obtain r :: "nat list" and rs :: "nat list list"
    where d: "drop i indices = r # rs"
      and v1: "distinct r" and v2: "0 \<le> idx" and v3: "nat idx \<in> set r"
      and rest: "list_all2 (\<lambda>inds x. distinct inds \<and> 0 \<le> x \<and> nat x \<in> set inds) rs idxs"
    by (auto simp: list_all2_Cons2)
  note v = v1 v2 v3
  have i: "i < length indices" using d by (cases "i < length indices") auto
  have r: "r = indices ! i" and rs: "rs = drop (Suc i) indices"
    using d i by (simp_all add: Cons_nth_drop_Suc[symmetric])
  have "rank_loop indices i (idx # idxs) rank =
          rank_loop indices (Suc i) idxs (rank + int (position_of r (nat idx)))"
    using i nonzero_eq_position[OF v] r by (simp add: bind_def item_def)
  then show ?case
    using Cons.IH[of "Suc i" "rank + int (position_of r (nat idx))"] rest rs d
    by simp
qed

lemma position_first:
  assumes "descending_permutation row inds"
    and "g < length row" "\<forall>j<length row. j \<noteq> g \<longrightarrow> row ! j < row ! g"
  shows "position_of inds g = 0"
proof -
  have len: "length inds = length row" by (rule descending_permutation_length[OF assms(1)])
  have st: "set inds = {0..<length row}" and so: "sorted (map (\<lambda>j. - (row ! j)) inds)"
    using assms(1) by (simp_all add: descending_permutation_def)
  have ne: "inds \<noteq> []" using assms(2) len by auto
  have g: "g \<in> set inds" using assms(2) st by simp
  have h: "hd inds \<in> set inds" using ne by simp
  then have hl: "hd inds < length row" using st by simp
  have "- (row ! hd inds) \<le> - (row ! g)"
  proof -
    obtain y ys where c: "inds = y # ys" using ne by (cases inds) auto
    have "sorted (map (\<lambda>j. - (row ! j)) (y # ys))"
      using so c by simp
    then have "\<forall>z\<in>set ys. - (row ! y) \<le> - (row ! z)" by simp
    then show ?thesis using g c by auto
  qed
  then have "hd inds = g" using assms(3) hl by force
  then have "takeWhile (\<lambda>y. y \<noteq> g) inds = []" using ne by (cases inds) auto
  then show ?thesis by (simp add: position_of_def)
qed

lemma position_last:
  assumes "descending_permutation row inds"
    and "g < length row" "\<forall>j<length row. j \<noteq> g \<longrightarrow> row ! g < row ! j"
  shows "position_of inds g = length row - 1"
proof -
  have len: "length inds = length row" by (rule descending_permutation_length[OF assms(1)])
  have di: "distinct inds" and st: "set inds = {0..<length row}"
    and so: "sorted (map (\<lambda>j. - (row ! j)) inds)"
    using assms(1) by (simp_all add: descending_permutation_def)
  have ne: "inds \<noteq> []" using assms(2) len by auto
  have g: "g \<in> set inds" using assms(2) st by simp
  have "last inds \<in> set inds" using ne by simp
  then have ll: "last inds < length row" using st by simp
  have "- (row ! g) \<le> - (row ! last inds)"
  proof -
    obtain k where k: "k < length inds" "inds ! k = g" using g by (auto simp: in_set_conv_nth)
    have "map (\<lambda>j. - (row ! j)) inds ! k \<le> map (\<lambda>j. - (row ! j)) inds ! (length inds - 1)"
      using so k(1)
      by (intro sorted_nth_mono) auto
    then show ?thesis using k ne by (simp add: last_conv_nth)
  qed
  then have "last inds = g" using assms(3) ll by force
  then have "inds ! (length row - 1) = g" using ne len by (simp add: last_conv_nth)
  then show ?thesis
    using position_of_nth[of inds "length row - 1"] di len assms(2)
    by auto
qed


lemma merge_stats_skip_none:
  "(\<forall>j<length stats. int (i + j) \<noteq> lr) \<Longrightarrow>
     merge_stats lr i stats (a, b) = (a + sum_list (map fst stats), b + sum_list (map snd stats))"
proof (induction stats arbitrary: i a b rule: list.induct)
  case Nil
  then show ?case by simp
next
  case (Cons p stats)
  obtain r n where p: "p = (r, n)" by (cases p) auto
  have h: "int i \<noteq> lr" using Cons.prems by fastforce
  have t: "\<forall>j<length stats. int (Suc i + j) \<noteq> lr"
  proof (intro allI impI)
    fix j assume "j < length stats"
    then have "int (i + Suc j) \<noteq> lr" using Cons.prems by fastforce
    then show "int (Suc i + j) \<noteq> lr" by simp
  qed
  show ?case
    using Cons.IH[OF t, of "a + r" "b + n"] h p by simp
qed

lemma merge_stats_own:
  "int (i + length xs) = lr \<Longrightarrow>
     merge_stats lr i (xs @ own # ys) (a, b) =
       (a + sum_list (map fst xs) + sum_list (map fst ys),
        b + sum_list (map snd xs) + sum_list (map snd ys))"
proof (induction xs arbitrary: i a b rule: list.induct)
  case Nil
  obtain r n where o: "own = (r, n)" by (cases own) auto
  have "\<forall>j<length ys. int (Suc i + j) \<noteq> lr" using Nil by auto
  then show ?case
    using merge_stats_skip_none[of ys "Suc i" lr a b] Nil o by simp
next
  case (Cons p xs)
  obtain r n where p: "p = (r, n)" by (cases p) auto
  have h: "int i \<noteq> lr" using Cons.prems by auto
  have "int (Suc i + length xs) = lr" using Cons.prems by simp
  from Cons.IH[OF this, of "a + r" "b + n"] show ?case
    using h p by simp
qed

lemma rank_loop_gold_rank_sum:
  assumes "list_all2 descending_permutation scores indices"
    and "list_all2 (\<lambda>row idx. 0 \<le> idx \<and> idx < int (length row)) scores pos"
  shows "rank_loop indices 0 pos 0 = Inr (gold_rank_sum indices pos)"
proof -
  have "list_all2 (\<lambda>inds idx. distinct inds \<and> 0 \<le> idx \<and> nat idx \<in> set inds) indices pos"
    using assms
    by (auto simp: list_all2_conv_all_nth descending_permutation_def)
  then have "rank_loop indices 0 pos 0 =
      Inr (0 + sum_list (map2 (\<lambda>inds idx. int (position_of inds (nat idx)))
                           (drop 0 indices) pos))"
    by (intro rank_loop_positions) simp
  then show ?thesis
    by (simp add: gold_rank_sum_def)
qed

lemma average_rank_single_worker:
  assumes "list_all2 descending_permutation (sim q ctx) (torch_sort (sim q ctx))"
    and "list_all2 (\<lambda>row idx. 0 \<le> idx \<and> idx < int (length row)) (sim q ctx) pos"
    and "length q = length pos" and "q \<noteq> []" and "\<not> 1 < distributed_factor c"
  shows "validate_average_rank c env sim torch_sort q ctx pos =
           Inr (real_of_int (gold_rank_sum (torch_sort (sim q ctx)) pos) / real (length q))"
proof -
  have "pos \<noteq> []" using assms(3,4) by auto
  then show ?thesis
    using assms(3,5) rank_loop_gold_rank_sum[OF assms(1,2)]
    by (simp add: validate_average_rank_def Let_def bind_def)
qed

lemma average_rank_multi_worker:
  assumes "list_all2 descending_permutation (sim q ctx) (torch_sort (sim q ctx))"
    and "list_all2 (\<lambda>row idx. 0 \<le> idx \<and> idx < int (length row)) (sim q ctx) pos"
    and "length q = length pos" and "1 < distributed_factor c"
    and "payload_fits env" and "int (my_rank env) = local_rank c"
    and "my_rank env \<le> length (others env)"
    and "stats = take (my_rank env) (others env)
                 @ (gold_rank_sum (torch_sort (sim q ctx)) pos, int (length q))
                 # drop (my_rank env) (others env)"
    and "sum_list (map snd stats) \<noteq> 0"
  shows "validate_average_rank c env sim torch_sort q ctx pos =
           Inr (real_of_int (sum_list (map fst stats)) / real_of_int (sum_list (map snd stats)))"
proof -
  have l: "int (0 + length (take (my_rank env) (others env))) = local_rank c"
    using assms(6,7) by simp
  have m: "merge_stats (local_rank c) 0 stats
             (gold_rank_sum (torch_sort (sim q ctx)) pos, int (length q)) =
          (sum_list (map fst stats), sum_list (map snd stats))"
    unfolding assms(8) merge_stats_own[OF l] by simp
  show ?thesis
    using assms(3,4,5) assms(9)[unfolded assms(8)] rank_loop_gold_rank_sum[OF assms(1,2)]
      m[unfolded assms(8)]
    unfolding assms(8)
    by (simp add: validate_average_rank_def Let_def bind_def all_gather_list_def)
qed

lemma single_row_sorted:
  assumes "sim [qv] ctx = [row]"
    and "list_all2 descending_permutation (sim [qv] ctx) (torch_sort (sim [qv] ctx))"
  obtains inds where "torch_sort (sim [qv] ctx) = [inds]" "descending_permutation row inds"
  using assms by (auto simp: list_all2_Cons1)

text \<open>
  Claim C5. The similarity function returns one row of scores per question, every gold
  index lies within its row, and the indices that the library's sort returns are, for
  every row, the positions of the row in an order of descending scores (equal scores in
  any order). (1) With one worker, \<open>validate_average_rank\<close> returns the sum of the
  0-based positions of the gold passages in the sorted indices of their rows, divided by
  the number of questions. (2) For a single question whose gold passage scores strictly
  highest the result is 0, and (3) when it scores strictly lowest among the \<open>P\<close>
  passages of the row the result is \<open>P - 1\<close>. (4) With several workers, the gather
  returning every worker's pair (rank sum, question count) in rank order with this
  worker's own pair at the slot of \<open>cfg.local_rank\<close>, the result is the sum of all
  rank sums divided by the sum of all question counts: the own pair is counted once.
\<close>

theorem validate_average_rank_mean:
  "(list_all2 descending_permutation (sim q ctx) (torch_sort (sim q ctx))
      \<and> list_all2 (\<lambda>row idx. 0 \<le> idx \<and> idx < int (length row)) (sim q ctx) pos
      \<and> length q = length pos \<and> q \<noteq> [] \<and> \<not> 1 < distributed_factor c
    \<longrightarrow> validate_average_rank c env sim torch_sort q ctx pos =
          Inr (real_of_int (gold_rank_sum (torch_sort (sim q ctx)) pos) / real (length q)))
   \<and> (sim [qv] ctx = [row]
      \<and> list_all2 descending_permutation (sim [qv] ctx) (torch_sort (sim [qv] ctx))
      \<and> 0 \<le> g \<and> g < int (length row) \<and> \<not> 1 < distributed_factor c
      \<and> (\<forall>j<length row. j \<noteq> nat g \<longrightarrow> row ! j < row ! nat g)
    \<longrightarrow> validate_average_rank c env sim torch_sort [qv] ctx [g] = Inr 0)
   \<and> (sim [qv] ctx = [row]
      \<and> list_all2 descending_permutation (sim [qv] ctx) (torch_sort (sim [qv] ctx))
      \<and> 0 \<le> g \<and> g < int (length row) \<and> \<not> 1 < distributed_factor c
      \<and> (\<forall>j<length row. j \<noteq> nat g \<longrightarrow> row ! nat g < row ! j)
    \<longrightarrow> validate_average_rank c env sim torch_sort [qv] ctx [g] = Inr (real (length row - 1)))
   \<and> (list_all2 descending_permutation (sim q ctx) (torch_sort (sim q ctx))
      \<and> list_all2 (\<lambda>row idx. 0 \<le> idx \<and> idx < int (length row)) (sim q ctx) pos
      \<and> length q = length pos \<and> 1 < distributed_factor c
      \<and> payload_fits env \<and> int (my_rank env) = local_rank c
      \<and> my_rank env \<le> length (others env)
      \<and> stats = take (my_rank env) (others env)
                 @ (gold_rank_sum (torch_sort (sim q ctx)) pos, int (length q))
                 # drop (my_rank env) (others env)
      \<and> sum_list (map snd stats) \<noteq> 0
    \<longrightarrow> validate_average_rank c env sim torch_sort q ctx pos =
          Inr (real_of_int (sum_list (map fst stats)) / real_of_int (sum_list (map snd stats))))"
proof (intro conjI impI)
  assume "list_all2 descending_permutation (sim q ctx) (torch_sort (sim q ctx))
      \<and> list_all2 (\<lambda>row idx. 0 \<le> idx \<and> idx < int (length row)) (sim q ctx) pos
      \<and> length q = length pos \<and> q \<noteq> [] \<and> \<not> 1 < distributed_factor c"
  then show "validate_average_rank c env sim torch_sort q ctx pos =
          Inr (real_of_int (gold_rank_sum (torch_sort (sim q ctx)) pos) / real (length q))"
    by (intro average_rank_single_worker) simp_all
next
  assume a: "sim [qv] ctx = [row]
      \<and> list_all2 descending_permutation (sim [qv] ctx) (torch_sort (sim [qv] ctx))
      \<and> 0 \<le> g \<and> g < int (length row) \<and> \<not> 1 < distributed_factor c
      \<and> (\<forall>j<length row. j \<noteq> nat g \<longrightarrow> row ! j < row ! nat g)"
  then have a1: "sim [qv] ctx = [row]"
    and a2: "list_all2 descending_permutation (sim [qv] ctx) (torch_sort (sim [qv] ctx))"
    and a3: "0 \<le> g" "g < int (length row)"
    and a4: "\<not> 1 < distributed_factor c"
    by blast+
  obtain inds where i: "torch_sort (sim [qv] ctx) = [inds]" "descending_permutation row inds"
    using a1 a2 by (rule single_row_sorted)
  have "position_of inds (nat g) = 0"
    using a by (intro position_first[OF i(2)]) auto
  then have "gold_rank_sum (torch_sort (sim [qv] ctx)) [g] = 0"
    using i(1) by (simp add: gold_rank_sum_def)
  moreover have "validate_average_rank c env sim torch_sort [qv] ctx [g] =
          Inr (real_of_int (gold_rank_sum (torch_sort (sim [qv] ctx)) [g]) / real (length [qv]))"
    by (rule average_rank_single_worker
          [where sim = sim and torch_sort = torch_sort and q = "[qv]" and ctx = ctx, OF a2 _ _ _ a4])
       (use a1 a3 in simp_all)
  ultimately show "validate_average_rank c env sim torch_sort [qv] ctx [g] = Inr 0"
    by simp
next
  assume a: "sim [qv] ctx = [row]
      \<and> list_all2 descending_permutation (sim [qv] ctx) (torch_sort (sim [qv] ctx))
      \<and> 0 \<le> g \<and> g < int (length row) \<and> \<not> 1 < distributed_factor c
      \<and> (\<forall>j<length row. j \<noteq> nat g \<longrightarrow> row ! nat g < row ! j)"
  then have a1: "sim [qv] ctx = [row]"
    and a2: "list_all2 descending_permutation (sim [qv] ctx) (torch_sort (sim [qv] ctx))"
    and a3: "0 \<le> g" "g < int (length row)"
    and a4: "\<not> 1 < distributed_factor c"
    by blast+
  obtain inds where i: "torch_sort (sim [qv] ctx) = [inds]" "descending_permutation row inds"
    using a1 a2 by (rule single_row_sorted)
  have "position_of inds (nat g) = length row - 1"
    using a by (intro position_last[OF i(2)]) auto
  then have "gold_rank_sum (torch_sort (sim [qv] ctx)) [g] = int (length row - 1)"
    using i(1) by (simp add: gold_rank_sum_def)
  moreover have "validate_average_rank c env sim torch_sort [qv] ctx [g] =
          Inr (real_of_int (gold_rank_sum (torch_sort (sim [qv] ctx)) [g]) / real (length [qv]))"
    by (rule average_rank_single_worker
          [where sim = sim and torch_sort = torch_sort and q = "[qv]" and ctx = ctx, OF a2 _ _ _ a4])
       (use a1 a3 in simp_all)
  ultimately show "validate_average_rank c env sim torch_sort [qv] ctx [g] =
      Inr (real (length row - 1))"
    by simp
next
  assume "list_all2 descending_permutation (sim q ctx) (torch_sort (sim q ctx))
      \<and> list_all2 (\<lambda>row idx. 0 \<le> idx \<and> idx < int (length row)) (sim q ctx) pos
      \<and> length q = length pos \<and> 1 < distributed_factor c
      \<and> payload_fits env \<and> int (my_rank env) = local_rank c
      \<and> my_rank env \<le> length (others env)
      \<and> stats = take (my_rank env) (others env)
                 @ (gold_rank_sum (torch_sort (sim q ctx)) pos, int (length q))
                 # drop (my_rank env) (others env)
      \<and> sum_list (map snd stats) \<noteq> 0"
  then show "validate_average_rank c env sim torch_sort q ctx pos =
          Inr (real_of_int (sum_list (map fst stats)) / real_of_int (sum_list (map snd stats)))"
    by (elim conjE) (rule average_rank_multi_worker; assumption)
qed

lemma example_gold_rank_sum:
  "gold_rank_sum (stable_sort_rows [[1, 9, 5], [4, 2, 7]]) [0, 0] = 3"
  by (simp add: gold_rank_sum_def position_of_def stable_sort_rows_def sort_descending_def
      upt_conv_Cons)

lemma example_tied_permutation:
  "descending_permutation [5, 5, 1] [1, 0, 2]"
  by (auto simp: descending_permutation_def)

theorem validate_average_rank_mean_witness:
  "validate_average_rank example_cfg stats_env (fixed_scores [[1, 9, 5], [4, 2, 7]])
       stable_sort_rows [[0], [0]] [[0], [0], [0]] [0, 0] = Inr (3 / 2)
   \<and> validate_average_rank example_cfg stats_env (fixed_scores [[1, 9, 5]])
       stable_sort_rows [[0]] [[0], [0], [0]] [1] = Inr 0
   \<and> validate_average_rank example_cfg stats_env (fixed_scores [[1, 9, 5]])
       stable_sort_rows [[0]] [[0], [0], [0]] [0] = Inr 2
   \<and> validate_average_rank multi_cfg stats_env (fixed_scores [[1, 9, 5], [4, 2, 7]])
       stable_sort_rows [[0], [0]] [[0], [0], [0]] [0, 0] = Inr (4 / 3)
   \<and> validate_average_rank example_cfg stats_env (fixed_scores [[5, 5, 1]])
       (fixed_indices [[1, 0, 2]]) [[0]] [[0], [0], [0]] [0] = Inr 1"
proof (intro conjI)
  show "validate_average_rank example_cfg stats_env (fixed_scores [[1, 9, 5], [4, 2, 7]])
       stable_sort_rows [[0], [0]] [[0], [0], [0]] [0, 0] = Inr (3 / 2)"
    using validate_average_rank_mean
      [where sim = "fixed_scores [[1, 9, 5], [4, 2, 7]]" and q = "[[0], [0]]"
         and torch_sort = stable_sort_rows
         and ctx = "[[0], [0], [0]]" and pos = "[0, 0]" and c = example_cfg and env = stats_env,
       THEN conjunct1]
      stable_sort_rows_permutation [of "[[1, 9, 5], [4, 2, 7]]"]
    by (simp add: fixed_scores_def example_gold_rank_sum distributed_factor_def example_defs)
  show "validate_average_rank example_cfg stats_env (fixed_scores [[1, 9, 5]])
       stable_sort_rows [[0]] [[0], [0], [0]] [1] = Inr 0"
    using validate_average_rank_mean
      [where sim = "fixed_scores [[1, 9, 5]]" and qv = "[0]" and row = "[1, 9, 5]"
         and torch_sort = stable_sort_rows
         and ctx = "[[0], [0], [0]]" and g = 1 and c = example_cfg and env = stats_env,
       THEN conjunct2, THEN conjunct1]
      stable_sort_rows_permutation [of "[[1, 9, 5]]"]
    by (simp add: fixed_scores_def distributed_factor_def example_defs less_Suc_eq
        numeral_3_eq_3)
  show "validate_average_rank example_cfg stats_env (fixed_scores [[1, 9, 5]])
       stable_sort_rows [[0]] [[0], [0], [0]] [0] = Inr 2"
    using validate_average_rank_mean
      [where sim = "fixed_scores [[1, 9, 5]]" and qv = "[0]" and row = "[1, 9, 5]"
         and torch_sort = stable_sort_rows
         and ctx = "[[0], [0], [0]]" and g = 0 and c = example_cfg and env = stats_env,
       THEN conjunct2, THEN conjunct2, THEN conjunct1]
      stable_sort_rows_permutation [of "[[1, 9, 5]]"]
    by (simp add: fixed_scores_def distributed_factor_def example_defs less_Suc_eq
        numeral_3_eq_3)
  show "validate_average_rank multi_cfg stats_env (fixed_scores [[1, 9, 5], [4, 2, 7]])
       stable_sort_rows [[0], [0]] [[0], [0], [0]] [0, 0] = Inr (4 / 3)"
    using validate_average_rank_mean
      [where sim = "fixed_scores [[1, 9, 5], [4, 2, 7]]" and q = "[[0], [0]]"
         and torch_sort = stable_sort_rows
         and ctx = "[[0], [0], [0]]" and pos = "[0, 0]" and c = multi_cfg and env = stats_env
         and stats = "[(4, 3), (3, 2), (1, 1)]",
       THEN conjunct2, THEN conjunct2, THEN conjunct2]
      stable_sort_rows_permutation [of "[[1, 9, 5], [4, 2, 7]]"]
    by (simp add: fixed_scores_def example_gold_rank_sum distributed_factor_def example_defs
        multi_cfg_def stats_env_def)
  show "validate_average_rank example_cfg stats_env (fixed_scores [[5, 5, 1]])
       (fixed_indices [[1, 0, 2]]) [[0]] [[0], [0], [0]] [0] = Inr 1"
    using validate_average_rank_mean
      [where sim = "fixed_scores [[5, 5, 1]]" and q = "[[0]]"
         and torch_sort = "fixed_indices [[1, 0, 2]]"
         and ctx = "[[0], [0], [0]]" and pos = "[0]" and c = example_cfg and env = stats_env,
       THEN conjunct1]
      example_tied_permutation
    by (simp add: fixed_scores_def fixed_indices_def gold_rank_sum_def position_of_def
        distributed_factor_def example_defs)
qed

section \<open>Properties: the loss coordinator\<close>

lemma rows_vector_to_send [simp]: "rows (vector_to_send v) = rows v"
  by (simp add: vector_to_send_def tensor_detach_def tensor_copy_def)

lemma requires_grad_vector_to_send [simp]: "\<not> requires_grad (vector_to_send v)"
  by (simp add: vector_to_send_def tensor_detach_def)

lemma sent_item_simps [simp]:
  "q_vector (sent_item w) = vector_to_send (q_vector w)"
  "ctx_vectors (sent_item w) = vector_to_send (ctx_vectors w)"
  "positive_idx (sent_item w) = positive_idx w"
  "hard_negatives_idxs (sent_item w) = hard_negatives_idxs w"
  by (simp_all add: sent_item_def)

lemma running_offset_0 [simp]: "running_offset ws 0 = 0"
  by (simp add: running_offset_def)

lemma running_offset_Cons_Suc [simp]:
  "running_offset (w # ws) (Suc k) = passage_count w + running_offset ws k"
  by (simp add: running_offset_def)

lemma upt_0_Suc_map: "[0..<Suc n] = 0 # map Suc [0..<n]"
  by (simp add: upt_conv_Cons map_Suc_upt del: upt_Suc)

lemma gathered_items:
  assumes "r < length ws" "my_rank env = r" "payload_fits env"
    and "others env = map sent_item (take r ws @ drop (Suc r) ws)"
    and "ws ! r = local_inputs lq lc lp lh"
  shows "all_gather_list env
           \<lparr>q_vector = vector_to_send lq, ctx_vectors = vector_to_send lc,
            positive_idx = lp, hard_negatives_idxs = lh\<rparr> = Inr (map sent_item ws)"
proof -
  have own: "\<lparr>q_vector = vector_to_send lq, ctx_vectors = vector_to_send lc,
            positive_idx = lp, hard_negatives_idxs = lh\<rparr> = sent_item (ws ! r)"
    using assms(5) by (simp add: sent_item_def local_inputs_def)
  have "take r (others env) = map sent_item (take r ws)"
    using assms(1,4) by simp
  moreover have "drop r (others env) = map sent_item (drop (Suc r) ws)"
    using assms(1,4) by simp
  moreover have "map sent_item ws =
      map sent_item (take r ws) @ sent_item (ws ! r) # map sent_item (drop (Suc r) ws)"
    using id_take_nth_drop[OF assms(1)] by (metis list.simps(9) map_append)
  ultimately show ?thesis
    using assms(2,3) own by (simp add: all_gather_list_def)
qed


lemma pool_loop_result:
  assumes "list_all (\<lambda>w. hard_negatives_idxs w \<noteq> None) ws"
    and "\<forall>k<length ws. int (i + k) = lr \<longrightarrow> ws ! k = local_inputs lq lc lp lh"
  shows "pool_loop lr lq lc lp lh i (map sent_item ws) acc =
     Inr \<lparr>global_q_vector = global_q_vector acc @
             map (\<lambda>k. if int (i + k) = lr then lq else vector_to_send (q_vector (ws ! k)))
               [0..<length ws],
          global_ctxs_vector = global_ctxs_vector acc @
             map (\<lambda>k. if int (i + k) = lr then lc else vector_to_send (ctx_vectors (ws ! k)))
               [0..<length ws],
          positive_idx_per_question = positive_idx_per_question acc @
             concat (map (\<lambda>k. map (\<lambda>v. v + (total_ctxs acc + running_offset ws k))
                                 (positive_idx (ws ! k))) [0..<length ws]),
          hard_negatives_per_question = hard_negatives_per_question acc @
             concat (map (\<lambda>k. map (map (\<lambda>v. v + (total_ctxs acc + running_offset ws k)))
                                 (the (hard_negatives_idxs (ws ! k)))) [0..<length ws]),
          total_ctxs = total_ctxs acc + running_offset ws (length ws)\<rparr>"
  using assms
proof (induction ws arbitrary: i acc rule: list.induct)
  case Nil
  then show ?case by simp
next
  case (Cons w ws)
  obtain hns where hns: "hard_negatives_idxs w = Some hns"
    using Cons.prems(1) by auto
  have tl1: "list_all (\<lambda>w. hard_negatives_idxs w \<noteq> None) ws"
    using Cons.prems(1) by simp
  have tl2: "\<forall>k<length ws. int (Suc i + k) = lr \<longrightarrow> ws ! k = local_inputs lq lc lp lh"
  proof (intro allI impI)
    fix k assume "k < length ws" "int (Suc i + k) = lr"
    then have "Suc k < length (w # ws)" "int (i + Suc k) = lr" by simp_all
    then have "(w # ws) ! Suc k = local_inputs lq lc lp lh" using Cons.prems(2) by blast
    then show "ws ! k = local_inputs lq lc lp lh" by simp
  qed
  note ih = Cons.IH[OF tl1 tl2]
  show ?case
  proof (cases "int i = lr")
    case False
    show ?thesis
      using False hns
      by (simp add: ih upt_0_Suc_map comp_def tensor_to_def passage_count_def add.assoc
          del: upt_Suc)
  next
    case True
    then have w: "w = local_inputs lq lc lp lh"
      using Cons.prems(2) by fastforce
    then have l: "lh = Some hns" "positive_idx w = lp" "rows (ctx_vectors w) = rows lc"
      using hns by (simp_all add: local_inputs_def)
    from True have lr: "lr = int i" by simp
    show ?thesis
      unfolding lr using l hns
      by (simp add: ih[unfolded lr l(1)] upt_0_Suc_map comp_def passage_count_def add.assoc
          del: upt_Suc)
  qed
qed


lemma gather_pools_result:
  assumes "r < length ws" "my_rank env = r" "payload_fits env"
    and "others env = map sent_item (take r ws @ drop (Suc r) ws)"
    and "ws ! r = local_inputs lq lc lp lh"
    and "local_rank c = int r"
    and "list_all (\<lambda>w. hard_negatives_idxs w \<noteq> None) ws"
  shows "gather_pools c env lq lc lp lh =
     Inr \<lparr>global_q_vector =
             map (\<lambda>k. if k = r then lq else vector_to_send (q_vector (ws ! k))) [0..<length ws],
          global_ctxs_vector =
             map (\<lambda>k. if k = r then lc else vector_to_send (ctx_vectors (ws ! k))) [0..<length ws],
          positive_idx_per_question =
             concat (map (\<lambda>k. map (\<lambda>v. v + running_offset ws k) (positive_idx (ws ! k)))
                       [0..<length ws]),
          hard_negatives_per_question =
             concat (map (\<lambda>k. map (map (\<lambda>v. v + running_offset ws k))
                                 (the (hard_negatives_idxs (ws ! k)))) [0..<length ws]),
          total_ctxs = running_offset ws (length ws)\<rparr>"
proof -
  have own: "\<forall>k<length ws. int (0 + k) = int r \<longrightarrow> ws ! k = local_inputs lq lc lp lh"
    using assms(5) by simp
  show ?thesis
    unfolding gather_pools_def gathered_items[OF assms(1-5)] assms(6)
    by (simp add: bind_def pool_loop_result[OF assms(7) own])
qed

lemma torch_cat_uniform:
  assumes "ts \<noteq> []" "list_all (\<lambda>t. list_all (\<lambda>row. length row = d) (rows t)) ts"
  shows "torch_cat ts = Inr \<lparr>rows = concat (map rows ts), requires_grad = list_ex requires_grad ts\<rparr>"
proof -
  have a: "\<forall>row\<in>set (concat (map rows ts)). length row = d"
    using assms(2) by (auto simp: list_all_iff)
  have "\<not> list_ex (\<lambda>r. length r \<noteq> length (hd (concat (map rows ts)))) (concat (map rows ts))"
  proof (cases "concat (map rows ts)")
    case Nil
    show ?thesis unfolding Nil by simp
  next
    case (Cons x xs)
    then have "length (hd (concat (map rows ts))) = d" using a by simp
    then show ?thesis using a by (simp add: list_ex_iff)
  qed
  then show ?thesis using assms(1) by (simp add: torch_cat_def Let_def)
qed

lemma concat_nth_offset:
  "j < length xss \<Longrightarrow> v < length (xss ! j) \<Longrightarrow>
     concat xss ! (length (concat (take j xss)) + v) = xss ! j ! v"
proof (induction xss arbitrary: j rule: list.induct)
  case Nil
  then show ?case by simp
next
  case (Cons xs xss)
  show ?case
  proof (cases j)
    case 0
    then show ?thesis using Cons.prems by (simp add: nth_append)
  next
    case (Suc j')
    then show ?thesis
      using Cons.prems Cons.IH[of j'] by (simp add: nth_append add.assoc)
  qed
qed

lemma running_offset_concat:
  "running_offset ws j = int (length (concat (take j (map (rows \<circ> ctx_vectors) ws))))"
proof (induction ws arbitrary: j rule: list.induct)
  case Nil
  then show ?case by (simp add: running_offset_def)
next
  case (Cons w ws)
  show ?case
  proof (cases j)
    case 0
    then show ?thesis by simp
  next
    case (Suc j')
    then show ?thesis using Cons.IH[of j'] by (simp add: passage_count_def)
  qed
qed


lemma slot_rows:
  assumes "r < length ws" "rows own = rows (g (ws ! r))"
  shows "map rows (map (\<lambda>k. if k = r then own else vector_to_send (g (ws ! k))) [0..<length ws])
         = map (rows \<circ> g) ws"
  using assms by (intro nth_equalityI) auto

lemma slot_requires_grad:
  assumes "r < length ws"
  shows "list_ex requires_grad
           (map (\<lambda>k. if k = r then own else vector_to_send (g (ws ! k))) [0..<length ws])
         = requires_grad own"
  using assms by (auto simp: list_ex_iff)

lemma slot_cat:
  assumes "r < length ws" "rows own = rows (g (ws ! r))"
    and "list_all (\<lambda>w. list_all (\<lambda>row. length row = d) (rows (g w))) ws"
  shows "torch_cat (map (\<lambda>k. if k = r then own else vector_to_send (g (ws ! k))) [0..<length ws])
         = Inr \<lparr>rows = concat (map (rows \<circ> g) ws), requires_grad = requires_grad own\<rparr>"
proof -
  let ?slots = "map (\<lambda>k. if k = r then own else vector_to_send (g (ws ! k))) [0..<length ws]"
  have ne: "?slots \<noteq> []" using assms(1) by auto
  have u: "list_all (\<lambda>t. list_all (\<lambda>row. length row = d) (rows t)) ?slots"
    using assms by (auto simp: list_all_iff)
  show ?thesis
    unfolding torch_cat_uniform[OF ne u] slot_rows[where g = g, OF assms(1,2)]
      slot_requires_grad[where g = g, OF assms(1)]
    by simp
qed

lemma calc_loss_pools_multi:
  assumes "1 < distributed_factor c"
    and "r < length ws" "my_rank env = r" "payload_fits env"
    and "others env = map sent_item (take r ws @ drop (Suc r) ws)"
    and "ws ! r = local_inputs lq lc lp lh"
    and "local_rank c = int r"
    and "list_all (\<lambda>w. hard_negatives_idxs w \<noteq> None) ws"
    and "list_all (\<lambda>w. list_all (\<lambda>row. length row = dq) (rows (q_vector w))) ws"
    and "list_all (\<lambda>w. list_all (\<lambda>row. length row = dc) (rows (ctx_vectors w))) ws"
  shows "calc_loss_pools c env lq lc lp lh =
     Inr (\<lparr>rows = concat (map (rows \<circ> q_vector) ws), requires_grad = requires_grad lq\<rparr>,
          \<lparr>rows = concat (map (rows \<circ> ctx_vectors) ws), requires_grad = requires_grad lc\<rparr>,
          concat (map (\<lambda>k. map (\<lambda>v. v + running_offset ws k) (positive_idx (ws ! k)))
                    [0..<length ws]),
          Some (concat (map (\<lambda>k. map (map (\<lambda>v. v + running_offset ws k))
                                    (the (hard_negatives_idxs (ws ! k)))) [0..<length ws])))"
proof -
  have q: "rows lq = rows (q_vector (ws ! r))" and cx: "rows lc = rows (ctx_vectors (ws ! r))"
    using assms(6) by (simp_all add: local_inputs_def)
  show ?thesis
    using assms(1)
    by (simp add: calc_loss_pools_def bind_def gather_pools_result[OF assms(2-8)]
        slot_cat[where g = q_vector, OF assms(2) q assms(9)]
        slot_cat[where g = ctx_vectors, OF assms(2) cx assms(10)])
qed

lemma pooled_row:
  assumes "j < length ws" "0 \<le> v" "v < passage_count (ws ! j)"
  shows "concat (map (rows \<circ> ctx_vectors) ws) ! nat (v + running_offset ws j)
         = rows (ctx_vectors (ws ! j)) ! nat v"
proof -
  have "nat (v + running_offset ws j) =
        length (concat (take j (map (rows \<circ> ctx_vectors) ws))) + nat v"
    using assms(2) by (simp add: running_offset_concat nat_add_distrib)
  then show ?thesis
    using concat_nth_offset[of j "map (rows \<circ> ctx_vectors) ws" "nat v"] assms
    by (simp add: passage_count_def)
qed


lemmas pool_example_defs =
  pool_cfg_def pool_env_def worker0_def worker1_q_def worker1_ctx_def local_inputs_def
  example_cfg_def example_train_cfg_def


text \<open>
  Claim C1. (1) When \<open>distributed_world_size\<close> is unset or 1, the four arguments passed
  to the loss function are the local inputs themselves. (2) With \<open>k > 1\<close> workers whose
  local inputs are \<open>ws\<close> in rank order, the calling worker having rank \<open>r\<close> =
  \<open>cfg.local_rank\<close>, the gather delivering what every worker sent, every worker
  supplying hard negatives and all vectors of one width: the pooled passage tensor holds
  the passage vectors of all workers concatenated in rank order, its row count is the sum
  of the workers' passage counts, the pooled positive and hard-negative indices are those
  of worker 0, 1, ... in order, each shifted by the number of passages of the workers of
  lower rank, and a local index shifted in this way points, in the pooled tensor, at the
  vector it pointed at in its worker's local tensor.
\<close>

theorem calc_loss_pools_global_pool:
  "(distributed_world_size c = None \<or> distributed_world_size c = Some 1
      \<longrightarrow> calc_loss_pools c env lq lc lp lh = Inr (lq, lc, lp, lh))
   \<and> (distributed_world_size c = Some (int (length ws)) \<and> 1 < length ws
      \<and> r < length ws \<and> local_rank c = int r \<and> my_rank env = r \<and> payload_fits env
      \<and> others env = map sent_item (take r ws @ drop (Suc r) ws)
      \<and> ws ! r = local_inputs lq lc lp lh
      \<and> list_all (\<lambda>w. hard_negatives_idxs w \<noteq> None) ws
      \<and> list_all (\<lambda>w. list_all (\<lambda>row. length row = dq) (rows (q_vector w))) ws
      \<and> list_all (\<lambda>w. list_all (\<lambda>row. length row = dc) (rows (ctx_vectors w))) ws
    \<longrightarrow> calc_loss_pools c env lq lc lp lh =
          Inr (\<lparr>rows = concat (map (rows \<circ> q_vector) ws), requires_grad = requires_grad lq\<rparr>,
               \<lparr>rows = concat (map (rows \<circ> ctx_vectors) ws), requires_grad = requires_grad lc\<rparr>,
               concat (map (\<lambda>k. map (\<lambda>v. v + running_offset ws k) (positive_idx (ws ! k)))
                         [0..<length ws]),
               Some (concat (map (\<lambda>k. map (map (\<lambda>v. v + running_offset ws k))
                                         (the (hard_negatives_idxs (ws ! k)))) [0..<length ws])))
        \<and> length (concat (map (rows \<circ> ctx_vectors) ws)) =
            sum_list (map (\<lambda>w. length (rows (ctx_vectors w))) ws)
        \<and> (\<forall>j<length ws. \<forall>v. 0 \<le> v \<and> v < passage_count (ws ! j) \<longrightarrow>
              concat (map (rows \<circ> ctx_vectors) ws) ! nat (v + running_offset ws j)
              = rows (ctx_vectors (ws ! j)) ! nat v))"
proof (intro conjI impI allI)
  assume "distributed_world_size c = None \<or> distributed_world_size c = Some 1"
  then have "\<not> 1 < distributed_factor c"
    by (auto simp: distributed_factor_def)
  then show "calc_loss_pools c env lq lc lp lh = Inr (lq, lc, lp, lh)"
    by (simp add: calc_loss_pools_def)
next
  assume a: "distributed_world_size c = Some (int (length ws)) \<and> 1 < length ws
      \<and> r < length ws \<and> local_rank c = int r \<and> my_rank env = r \<and> payload_fits env
      \<and> others env = map sent_item (take r ws @ drop (Suc r) ws)
      \<and> ws ! r = local_inputs lq lc lp lh
      \<and> list_all (\<lambda>w. hard_negatives_idxs w \<noteq> None) ws
      \<and> list_all (\<lambda>w. list_all (\<lambda>row. length row = dq) (rows (q_vector w))) ws
      \<and> list_all (\<lambda>w. list_all (\<lambda>row. length row = dc) (rows (ctx_vectors w))) ws"
  then have f: "1 < distributed_factor c"
    by (auto simp: distributed_factor_def)
  from a f show "calc_loss_pools c env lq lc lp lh =
          Inr (\<lparr>rows = concat (map (rows \<circ> q_vector) ws), requires_grad = requires_grad lq\<rparr>,
               \<lparr>rows = concat (map (rows \<circ> ctx_vectors) ws), requires_grad = requires_grad lc\<rparr>,
               concat (map (\<lambda>k. map (\<lambda>v. v + running_offset ws k) (positive_idx (ws ! k)))
                         [0..<length ws]),
               Some (concat (map (\<lambda>k. map (map (\<lambda>v. v + running_offset ws k))
                                         (the (hard_negatives_idxs (ws ! k)))) [0..<length ws])))"
    by (elim conjE) (rule calc_loss_pools_multi; assumption)
next
  show "length (concat (map (rows \<circ> ctx_vectors) ws)) =
            sum_list (map (\<lambda>w. length (rows (ctx_vectors w))) ws)"
    by (simp add: length_concat comp_def)
next
  fix j v
  assume "j < length ws" "0 \<le> v \<and> v < passage_count (ws ! j)"
  then show "concat (map (rows \<circ> ctx_vectors) ws) ! nat (v + running_offset ws j)
              = rows (ctx_vectors (ws ! j)) ! nat v"
    by (intro pooled_row) simp_all
qed


theorem calc_loss_pools_global_pool_witness:
  "calc_loss_pools example_cfg pool_env worker1_q worker1_ctx [1] (Some [[2]]) =
     Inr (worker1_q, worker1_ctx, [1], Some [[2]])
   \<and> calc_loss_pools pool_cfg pool_env worker1_q worker1_ctx [1] (Some [[2]]) =
     Inr (\<lparr>rows = [[1, 0], [0, 1]], requires_grad = True\<rparr>,
          \<lparr>rows = [[1, 1], [2, 2], [3, 3], [4, 4], [5, 5]], requires_grad = True\<rparr>,
          [0, 3], Some [[1], [4]])
   \<and> [[1, 1], [2, 2], [3, 3], [4, 4], [5, 5 :: real]] ! 3 = rows worker1_ctx ! 1"
proof (intro conjI)
  show "calc_loss_pools example_cfg pool_env worker1_q worker1_ctx [1] (Some [[2]]) =
     Inr (worker1_q, worker1_ctx, [1], Some [[2]])"
    using calc_loss_pools_global_pool
      [where c = example_cfg and env = pool_env and lq = worker1_q and lc = worker1_ctx
         and lp = "[1]" and lh = "Some [[2]]", THEN conjunct1]
    by (simp add: example_cfg_def)
next
  have h: "distributed_world_size pool_cfg
             = Some (int (length [worker0, local_inputs worker1_q worker1_ctx [1] (Some [[2]])]))
      \<and> 1 < length [worker0, local_inputs worker1_q worker1_ctx [1] (Some [[2]])]
      \<and> 1 < length [worker0, local_inputs worker1_q worker1_ctx [1] (Some [[2]])]
      \<and> local_rank pool_cfg = int 1 \<and> my_rank pool_env = 1 \<and> payload_fits pool_env
      \<and> others pool_env = map sent_item
            (take 1 [worker0, local_inputs worker1_q worker1_ctx [1] (Some [[2]])]
             @ drop (Suc 1) [worker0, local_inputs worker1_q worker1_ctx [1] (Some [[2]])])
      \<and> [worker0, local_inputs worker1_q worker1_ctx [1] (Some [[2]])] ! 1
            = local_inputs worker1_q worker1_ctx [1] (Some [[2]])
      \<and> list_all (\<lambda>w. hard_negatives_idxs w \<noteq> None)
            [worker0, local_inputs worker1_q worker1_ctx [1] (Some [[2]])]
      \<and> list_all (\<lambda>w. list_all (\<lambda>row. length row = 2) (rows (q_vector w)))
            [worker0, local_inputs worker1_q worker1_ctx [1] (Some [[2]])]
      \<and> list_all (\<lambda>w. list_all (\<lambda>row. length row = 2) (rows (ctx_vectors w)))
            [worker0, local_inputs worker1_q worker1_ctx [1] (Some [[2]])]"
    by (simp add: pool_example_defs)
  note t = calc_loss_pools_global_pool
      [where c = pool_cfg and env = pool_env and lq = worker1_q and lc = worker1_ctx
         and lp = "[1]" and lh = "Some [[2]]" and r = 1 and dq = 2 and dc = 2
         and ws = "[worker0, local_inputs worker1_q worker1_ctx [1] (Some [[2]])]",
       THEN conjunct2, THEN mp, OF h]
  show "calc_loss_pools pool_cfg pool_env worker1_q worker1_ctx [1] (Some [[2]]) =
     Inr (\<lparr>rows = [[1, 0], [0, 1]], requires_grad = True\<rparr>,
          \<lparr>rows = [[1, 1], [2, 2], [3, 3], [4, 4], [5, 5]], requires_grad = True\<rparr>,
          [0, 3], Some [[1], [4]])"
    using t[THEN conjunct1]
    by (simp add: pool_example_defs running_offset_def passage_count_def upt_conv_Cons)
  show "[[1, 1], [2, 2], [3, 3], [4, 4], [5, 5 :: real]] ! 3 = rows worker1_ctx ! 1"
    using t[THEN conjunct2, THEN conjunct2, rule_format, of 1 1]
    by (simp add: pool_example_defs running_offset_def passage_count_def)
qed



text \<open>
  Claim C2. In multi-worker mode, with the gather delivering what every worker sent and
  the calling worker at slot \<open>r\<close> = \<open>cfg.local_rank\<close>: the lists that are concatenated
  into the pooled question and passage tensors hold, at slot \<open>r\<close>, the worker's own local
  tensors as they are, gradient tracking included, and at every other slot the tensor
  received from the gather, which is not gradient-tracked and has the rows of the sending
  worker's local tensor. So a pooled tensor is connected to the gradient computation
  exactly through the local tensor.
\<close>

theorem gather_pools_gradient_slots:
  "1 < distributed_factor c
     \<and> r < length ws \<and> local_rank c = int r \<and> my_rank env = r \<and> payload_fits env
     \<and> others env = map sent_item (take r ws @ drop (Suc r) ws)
     \<and> ws ! r = local_inputs lq lc lp lh
     \<and> list_all (\<lambda>w. hard_negatives_idxs w \<noteq> None) ws
   \<longrightarrow> (\<exists>acc. gather_pools c env lq lc lp lh = Inr acc
         \<and> calc_loss_pools c env lq lc lp lh =
             bind (torch_cat (global_q_vector acc)) (\<lambda>gq.
             bind (torch_cat (global_ctxs_vector acc)) (\<lambda>gctx.
             Inr (gq, gctx, positive_idx_per_question acc,
                  Some (hard_negatives_per_question acc))))
         \<and> length (global_q_vector acc) = length ws
         \<and> length (global_ctxs_vector acc) = length ws
         \<and> global_q_vector acc ! r = lq
         \<and> global_ctxs_vector acc ! r = lc
         \<and> (\<forall>j<length ws. j \<noteq> r \<longrightarrow>
               global_q_vector acc ! j = tensor_to (q_vector (sent_item (ws ! j)))
             \<and> global_ctxs_vector acc ! j = tensor_to (ctx_vectors (sent_item (ws ! j)))
             \<and> \<not> requires_grad (global_q_vector acc ! j)
             \<and> \<not> requires_grad (global_ctxs_vector acc ! j)
             \<and> rows (global_q_vector acc ! j) = rows (q_vector (ws ! j))
             \<and> rows (global_ctxs_vector acc ! j) = rows (ctx_vectors (ws ! j)))
         \<and> list_ex requires_grad (global_q_vector acc) = requires_grad lq
         \<and> list_ex requires_grad (global_ctxs_vector acc) = requires_grad lc)"
proof (intro impI)
  assume a: "1 < distributed_factor c
     \<and> r < length ws \<and> local_rank c = int r \<and> my_rank env = r \<and> payload_fits env
     \<and> others env = map sent_item (take r ws @ drop (Suc r) ws)
     \<and> ws ! r = local_inputs lq lc lp lh
     \<and> list_all (\<lambda>w. hard_negatives_idxs w \<noteq> None) ws"
  then have r: "r < length ws" and f: "1 < distributed_factor c" by simp_all
  define acc where "acc =
        \<lparr>global_q_vector =
             map (\<lambda>k. if k = r then lq else vector_to_send (q_vector (ws ! k))) [0..<length ws],
          global_ctxs_vector =
             map (\<lambda>k. if k = r then lc else vector_to_send (ctx_vectors (ws ! k))) [0..<length ws],
          positive_idx_per_question =
             concat (map (\<lambda>k. map (\<lambda>v. v + running_offset ws k) (positive_idx (ws ! k)))
                       [0..<length ws]),
          hard_negatives_per_question =
             concat (map (\<lambda>k. map (map (\<lambda>v. v + running_offset ws k))
                                 (the (hard_negatives_idxs (ws ! k)))) [0..<length ws]),
          total_ctxs = running_offset ws (length ws)\<rparr>"
  have g: "gather_pools c env lq lc lp lh = Inr acc"
    unfolding acc_def using a by (elim conjE) (rule gather_pools_result; assumption)
  have c: "calc_loss_pools c env lq lc lp lh =
             bind (torch_cat (global_q_vector acc)) (\<lambda>gq.
             bind (torch_cat (global_ctxs_vector acc)) (\<lambda>gctx.
             Inr (gq, gctx, positive_idx_per_question acc,
                  Some (hard_negatives_per_question acc))))"
    using f by (simp add: calc_loss_pools_def g bind_def)
  have q: "list_ex requires_grad (global_q_vector acc) = requires_grad lq"
    unfolding acc_def using slot_requires_grad[where g = q_vector, OF r] by simp
  have x: "list_ex requires_grad (global_ctxs_vector acc) = requires_grad lc"
    unfolding acc_def using slot_requires_grad[where g = ctx_vectors, OF r] by simp
  have s1: "length (global_q_vector acc) = length ws"
    and s2: "length (global_ctxs_vector acc) = length ws"
    and s3: "global_q_vector acc ! r = lq"
    and s4: "global_ctxs_vector acc ! r = lc"
    using r by (simp_all add: acc_def)
  have s5: "\<forall>j<length ws. j \<noteq> r \<longrightarrow>
               global_q_vector acc ! j = tensor_to (q_vector (sent_item (ws ! j)))
             \<and> global_ctxs_vector acc ! j = tensor_to (ctx_vectors (sent_item (ws ! j)))
             \<and> \<not> requires_grad (global_q_vector acc ! j)
             \<and> \<not> requires_grad (global_ctxs_vector acc ! j)
             \<and> rows (global_q_vector acc ! j) = rows (q_vector (ws ! j))
             \<and> rows (global_ctxs_vector acc ! j) = rows (ctx_vectors (ws ! j))"
    by (simp add: acc_def tensor_to_def)
  show "\<exists>acc. gather_pools c env lq lc lp lh = Inr acc
         \<and> calc_loss_pools c env lq lc lp lh =
             bind (torch_cat (global_q_vector acc)) (\<lambda>gq.
             bind (torch_cat (global_ctxs_vector acc)) (\<lambda>gctx.
             Inr (gq, gctx, positive_idx_per_question acc,
                  Some (hard_negatives_per_question acc))))
         \<and> length (global_q_vector acc) = length ws
         \<and> length (global_ctxs_vector acc) = length ws
         \<and> global_q_vector acc ! r = lq
         \<and> global_ctxs_vector acc ! r = lc
         \<and> (\<forall>j<length ws. j \<noteq> r \<longrightarrow>
               global_q_vector acc ! j = tensor_to (q_vector (sent_item (ws ! j)))
             \<and> global_ctxs_vector acc ! j = tensor_to (ctx_vectors (sent_item (ws ! j)))
             \<and> \<not> requires_grad (global_q_vector acc ! j)
             \<and> \<not> requires_grad (global_ctxs_vector acc ! j)
             \<and> rows (global_q_vector acc ! j) = rows (q_vector (ws ! j))
             \<and> rows (global_ctxs_vector acc ! j) = rows (ctx_vectors (ws ! j)))
         \<and> list_ex requires_grad (global_q_vector acc) = requires_grad lq
         \<and> list_ex requires_grad (global_ctxs_vector acc) = requires_grad lc"
    by (intro exI[of _ acc] conjI g c s1 s2 s3 s4 s5 q x)
qed

theorem gather_pools_gradient_slots_witness:
  "\<exists>acc. gather_pools pool_cfg pool_env worker1_q worker1_ctx [1] (Some [[2]]) = Inr acc
     \<and> global_q_vector acc ! 1 = worker1_q
     \<and> requires_grad (global_q_vector acc ! 1)
     \<and> requires_grad (q_vector worker0)
     \<and> \<not> requires_grad (global_q_vector acc ! 0)
     \<and> rows (global_q_vector acc ! 0) = [[1, 0]]"
proof -
  have h: "1 < distributed_factor pool_cfg
     \<and> 1 < length [worker0, local_inputs worker1_q worker1_ctx [1] (Some [[2]])]
     \<and> local_rank pool_cfg = int 1 \<and> my_rank pool_env = 1 \<and> payload_fits pool_env
     \<and> others pool_env = map sent_item
          (take 1 [worker0, local_inputs worker1_q worker1_ctx [1] (Some [[2]])]
           @ drop (Suc 1) [worker0, local_inputs worker1_q worker1_ctx [1] (Some [[2]])])
     \<and> [worker0, local_inputs worker1_q worker1_ctx [1] (Some [[2]])] ! 1
          = local_inputs worker1_q worker1_ctx [1] (Some [[2]])
     \<and> list_all (\<lambda>w. hard_negatives_idxs w \<noteq> None)
          [worker0, local_inputs worker1_q worker1_ctx [1] (Some [[2]])]"
    by (simp add: pool_example_defs distributed_factor_def)
  from gather_pools_gradient_slots
      [where c = pool_cfg and env = pool_env and lq = worker1_q and lc = worker1_ctx
         and lp = "[1]" and lh = "Some [[2]]" and r = 1
         and ws = "[worker0, local_inputs worker1_q worker1_ctx [1] (Some [[2]])]",
       THEN mp, OF h]
  obtain acc where g: "gather_pools pool_cfg pool_env worker1_q worker1_ctx [1] (Some [[2]]) = Inr acc"
    and o: "global_q_vector acc ! 1 = worker1_q"
    and n: "\<forall>j<length [worker0, local_inputs worker1_q worker1_ctx [1] (Some [[2]])]. j \<noteq> 1 \<longrightarrow>
               global_q_vector acc ! j = tensor_to (q_vector (sent_item
                  ([worker0, local_inputs worker1_q worker1_ctx [1] (Some [[2]])] ! j)))
             \<and> global_ctxs_vector acc ! j = tensor_to (ctx_vectors (sent_item
                  ([worker0, local_inputs worker1_q worker1_ctx [1] (Some [[2]])] ! j)))
             \<and> \<not> requires_grad (global_q_vector acc ! j)
             \<and> \<not> requires_grad (global_ctxs_vector acc ! j)
             \<and> rows (global_q_vector acc ! j) = rows (q_vector
                  ([worker0, local_inputs worker1_q worker1_ctx [1] (Some [[2]])] ! j))
             \<and> rows (global_ctxs_vector acc ! j) = rows (ctx_vectors
                  ([worker0, local_inputs worker1_q worker1_ctx [1] (Some [[2]])] ! j))"
    by blast
  have z: "\<not> requires_grad (global_q_vector acc ! 0) \<and> rows (global_q_vector acc ! 0) = [[1, 0]]"
    using n[rule_format, of 0] by (simp add: worker0_def tensor_to_def)
  show ?thesis
    using g o z by (intro exI[of _ acc]) (simp add: worker1_q_def worker0_def)
qed

end
